theory Spec2Isabelle
  imports Complex_Main
begin

section \<open>JavaScript values used by the Ollama adapter\<close>

text \<open>
  Text is a list of code units (\<^typ>\<open>string\<close>); \<open>length\<close> is JavaScript's
  \<open>.length\<close>. The alphabet of the model is the 256 code units of \<^typ>\<open>char\<close>
  (U+0000 to U+00FF). Token and usage counters, which the TypeScript types as
  \<open>number\<close>, are integers; generation options, which are only copied, are rationals.
  Payloads typed \<open>Record<string, unknown>\<close> are JSON values.
\<close>

type_synonym number = rat

datatype json =
    JNull
  | JBool bool
  | JNumber rat
  | JString string
  | JArray "json list"
  | JObject "(string \<times> json) list"

text \<open>\<open>'text' in part && part.text\<close>: the field is present and not the empty string.\<close>

definition truthy :: "string option \<Rightarrow> bool" where
  "truthy s = (case s of None \<Rightarrow> False | Some t \<Rightarrow> t \<noteq> [])"

text \<open>\<open>s.startsWith(p)\<close>.\<close>

definition startsWith :: "string \<Rightarrow> string \<Rightarrow> bool" where
  "startsWith s p = (take (length p) s = p)"

text \<open>\<open>xs.join(sep)\<close>.\<close>

fun joinStr :: "string \<Rightarrow> string list \<Rightarrow> string" where
  "joinStr sep [] = []"
| "joinStr sep [x] = x"
| "joinStr sep (x # y # ys) = x @ sep @ joinStr sep (y # ys)"

text \<open>\<open>x || 0\<close> on an optional counter.\<close>

definition orZero :: "int option \<Rightarrow> int" where
  "orZero x = (case x of None \<Rightarrow> 0 | Some n \<Rightarrow> n)"

section \<open>The orchestration schema (the fields of @google/genai the adapter reads)\<close>

record Blob =
  mimeType :: "string option"
  blob_data :: string

record FunctionCall =
  fc_name :: string
  fc_args :: "json option"

record FunctionResponse =
  fr_response :: "json option"

text \<open>
  A \<open>Part\<close> is an object whose fields are all optional; the converter tests them in a
  fixed order with \<open>in\<close> and truthiness, so the model keeps the four fields it reads.
\<close>

record Part =
  part_text :: "string option"
  inlineData :: "Blob option"
  functionCall :: "FunctionCall option"
  functionResponse :: "FunctionResponse option"

record Content =
  role :: "string option"
  parts :: "Part list option"

record GenerateContentConfig =
  temperature :: "number option"
  topP :: "number option"
  topK :: "number option"
  maxOutputTokens :: "number option"
  stopSequences :: "string list option"
  seed :: "number option"

record FunctionDeclaration =
  fd_name :: string
  fd_description :: "string option"
  fd_parameters :: "json option"

record Tool =
  functionDeclarations :: "FunctionDeclaration list option"

record GenerateContentParameters =
  p_model :: string
  contents :: "Content list"
  config :: "GenerateContentConfig option"
  systemInstruction :: "Content option"
  p_tools :: "Tool list option"

section \<open>The local schema (ollamaConverter.ts)\<close>

datatype OllamaRole = RoleSystem | RoleUser | RoleAssistant | RoleTool

text \<open>\<open>OllamaToolCall\<close> is \<open>{function: {name, arguments}}\<close>; the inner object is flattened.\<close>

record OllamaToolCall =
  tc_name :: string
  tc_arguments :: json

record OllamaMessage =
  m_role :: OllamaRole
  m_content :: string
  images :: "string list option"
  tool_calls :: "OllamaToolCall list option"

record OllamaOptions =
  o_temperature :: "number option"
  top_p :: "number option"
  top_k :: "number option"
  num_predict :: "number option"
  stop :: "string list option"
  o_seed :: "number option"
  num_ctx :: "number option"

text \<open>\<open>OllamaTool\<close> is \<open>{type: 'function', function: {name, description, parameters}}\<close>.\<close>

record OllamaTool =
  t_name :: string
  t_description :: string
  t_parameters :: json

record OllamaRequest =
  r_model :: string
  messages :: "OllamaMessage list"
  options :: "OllamaOptions option"
  stream :: bool
  r_tools :: "OllamaTool list option"

section \<open>Request conversion\<close>

text \<open>\<open>extractTextFromContent\<close>: the non-empty texts of the parts, joined by newlines.\<close>

definition extractTextFromContent :: "Content \<Rightarrow> string" where
  "extractTextFromContent content =
     (case parts content of
        None \<Rightarrow> []
      | Some ps \<Rightarrow>
          joinStr [CHR 0x0A]
            (filter (\<lambda>t. length t > 0)
               (map (\<lambda>part. if truthy (part_text part) then the (part_text part) else []) ps)))"

text \<open>
  The loop of \<open>convertContentToMessage\<close> over the parts. Its state is the four locals
  \<open>role\<close>, \<open>textParts\<close>, \<open>images\<close> and \<open>toolCalls\<close>; the branches are the source's
  \<open>if\<close>/\<open>else if\<close> chain in its order. \<open>JSON.stringify\<close> is a parameter; a missing
  \<open>response\<close> stringifies to \<open>undefined\<close>, which \<open>join\<close> renders as the empty string.
\<close>

fun convertParts ::
  "(json \<Rightarrow> string) \<Rightarrow> Part list \<Rightarrow> OllamaRole \<Rightarrow> string list \<Rightarrow> string list \<Rightarrow>
   OllamaToolCall list option \<Rightarrow> OllamaRole \<times> string list \<times> string list \<times> OllamaToolCall list option"
where
  "convertParts stringify [] rl textParts imgs toolCalls = (rl, textParts, imgs, toolCalls)"
| "convertParts stringify (part # rest) rl textParts imgs toolCalls =
     (if truthy (part_text part) then
        convertParts stringify rest rl (textParts @ [the (part_text part)]) imgs toolCalls
      else case inlineData part of
        Some blob \<Rightarrow>
          (if (case mimeType blob of None \<Rightarrow> False | Some mt \<Rightarrow> startsWith mt ''image/'')
           then convertParts stringify rest rl textParts (imgs @ [blob_data blob]) toolCalls
           else convertParts stringify rest rl textParts imgs toolCalls)
      | None \<Rightarrow>
        (case functionCall part of
           Some fc \<Rightarrow>
             convertParts stringify rest rl textParts imgs
               (Some ((case toolCalls of None \<Rightarrow> [] | Some tcs \<Rightarrow> tcs) @
                  [\<lparr>tc_name = fc_name fc,
                    tc_arguments = (case fc_args fc of None \<Rightarrow> JObject [] | Some a \<Rightarrow> a)\<rparr>]))
         | None \<Rightarrow>
           (case functionResponse part of
              Some fr \<Rightarrow>
                convertParts stringify rest RoleTool
                  (textParts @ [case fr_response fr of None \<Rightarrow> [] | Some j \<Rightarrow> stringify j])
                  imgs toolCalls
            | None \<Rightarrow> convertParts stringify rest rl textParts imgs toolCalls)))"

definition convertContentToMessage :: "(json \<Rightarrow> string) \<Rightarrow> Content \<Rightarrow> OllamaMessage option" where
  "convertContentToMessage stringify content =
     (case parts content of
        None \<Rightarrow> None
      | Some [] \<Rightarrow> None
      | Some ps \<Rightarrow>
          (let rl = (if role content = Some ''model'' then RoleAssistant
                     else if role content = Some ''function'' then RoleTool
                     else RoleUser);
               (rl', textParts, imgs, toolCalls) = convertParts stringify ps rl [] [] None
           in Some \<lparr>m_role = rl',
                     m_content = joinStr [CHR 0x0A] textParts,
                     images = (if length imgs > 0 then Some imgs else None),
                     tool_calls = (case toolCalls of
                                     None \<Rightarrow> None
                                   | Some tcs \<Rightarrow> if length tcs > 0 then Some tcs else None)\<rparr>))"

text \<open>
  \<open>convertGenerationConfig\<close>: the options object starts empty and receives one field per
  test; \<open>Object.keys(options).length\<close> counts the fields that were assigned.
\<close>

definition emptyOptions :: OllamaOptions where
  "emptyOptions = \<lparr>o_temperature = None, top_p = None, top_k = None, num_predict = None,
                    stop = None, o_seed = None, num_ctx = None\<rparr>"

definition objectKeys :: "OllamaOptions \<Rightarrow> nat" where
  "objectKeys opts =
     length (filter id
       [o_temperature opts \<noteq> None, top_p opts \<noteq> None, top_k opts \<noteq> None,
        num_predict opts \<noteq> None, stop opts \<noteq> None, o_seed opts \<noteq> None,
        num_ctx opts \<noteq> None])"

definition convertGenerationConfig :: "GenerateContentConfig option \<Rightarrow> OllamaOptions option" where
  "convertGenerationConfig cfg =
     (case cfg of
        None \<Rightarrow> None
      | Some c \<Rightarrow>
          (let o0 = emptyOptions;
               o1 = (if temperature c \<noteq> None then o0\<lparr>o_temperature := temperature c\<rparr> else o0);
               o2 = (if topP c \<noteq> None then o1\<lparr>top_p := topP c\<rparr> else o1);
               o3 = (if topK c \<noteq> None then o2\<lparr>top_k := topK c\<rparr> else o2);
               o4 = (if maxOutputTokens c \<noteq> None then o3\<lparr>num_predict := maxOutputTokens c\<rparr> else o3);
               o5 = (case stopSequences c of
                       None \<Rightarrow> o4
                     | Some ss \<Rightarrow> if length ss > 0 then o4\<lparr>stop := Some ss\<rparr> else o4);
               o6 = (if seed c \<noteq> None then o5\<lparr>o_seed := seed c\<rparr> else o5)
           in if objectKeys o6 > 0 then Some o6 else None))"

definition convertFunctionToTool :: "FunctionDeclaration \<Rightarrow> OllamaTool" where
  "convertFunctionToTool fn =
     \<lparr>t_name = fd_name fn,
      t_description = (if truthy (fd_description fn) then the (fd_description fn) else []),
      t_parameters = (case fd_parameters fn of None \<Rightarrow> JObject [] | Some ps \<Rightarrow> ps)\<rparr>"

text \<open>Lines 105 to 114 of \<open>convertToOllamaRequest\<close>: the messages pushed for the system instruction.\<close>

definition systemMessages :: "GenerateContentParameters \<Rightarrow> OllamaMessage list" where
  "systemMessages params =
     (case systemInstruction params of
        None \<Rightarrow> []
      | Some si \<Rightarrow>
          (let systemText = extractTextFromContent si
           in if systemText \<noteq> [] then
                [\<lparr>m_role = RoleSystem, m_content = systemText, images = None, tool_calls = None\<rparr>]
              else []))"

definition convertToOllamaRequest ::
  "(json \<Rightarrow> string) \<Rightarrow> GenerateContentParameters \<Rightarrow> bool \<Rightarrow> OllamaRequest" where
  "convertToOllamaRequest stringify params strm =
     (let msgs = systemMessages params @
                 List.map_filter (convertContentToMessage stringify) (contents params);
          opts = convertGenerationConfig (config params);
          tls = (case p_tools params of
                   None \<Rightarrow> None
                 | Some ts \<Rightarrow>
                     Some (concat (map (\<lambda>tool. case functionDeclarations tool of
                                                  None \<Rightarrow> []
                                                | Some fds \<Rightarrow> map convertFunctionToTool fds) ts)))
      in \<lparr>r_model = p_model params,
          messages = msgs,
          options = opts,
          stream = strm,
          r_tools = (case tls of None \<Rightarrow> None | Some l \<Rightarrow> if length l > 0 then Some l else None)\<rparr>)"

section \<open>Response conversion\<close>

datatype FinishReason = STOP | MAX_TOKENS

record UsageMetadata =
  promptTokenCount :: int
  candidatesTokenCount :: int
  totalTokenCount :: int

record Candidate =
  cand_content :: Content
  finishReason :: "FinishReason option"
  cand_index :: nat

record GenerateContentResponse =
  candidates :: "Candidate list"
  usageMetadata :: "UsageMetadata option"
  modelVersion :: string

record OllamaResponse =
  resp_model :: string
  resp_created_at :: string
  resp_message :: OllamaMessage
  resp_done :: bool
  resp_done_reason :: "string option"
  resp_prompt_eval_count :: "int option"
  resp_eval_count :: "int option"

record ChunkMessage =
  cm_role :: string
  cm_content :: string

record OllamaStreamChunk =
  chunk_model :: string
  chunk_created_at :: string
  chunk_message :: "ChunkMessage option"
  chunk_done :: bool
  chunk_done_reason :: "string option"
  chunk_prompt_eval_count :: "int option"
  chunk_eval_count :: "int option"

definition textPart :: "string \<Rightarrow> Part" where
  "textPart t = \<lparr>part_text = Some t, inlineData = None, functionCall = None, functionResponse = None\<rparr>"

definition functionCallPart :: "OllamaToolCall \<Rightarrow> Part" where
  "functionCallPart toolCall =
     \<lparr>part_text = None, inlineData = None,
      functionCall = Some \<lparr>fc_name = tc_name toolCall, fc_args = Some (tc_arguments toolCall)\<rparr>,
      functionResponse = None\<rparr>"

definition convertToGeminiResponse :: "OllamaResponse \<Rightarrow> GenerateContentResponse" where
  "convertToGeminiResponse response =
     (let fr = (if resp_done_reason response = Some ''stop'' then STOP
                else if resp_done_reason response = Some ''length'' then MAX_TOKENS
                else if resp_done response then STOP
                else STOP);
          ps = (if m_content (resp_message response) \<noteq> []
                then [textPart (m_content (resp_message response))] else []) @
               (case tool_calls (resp_message response) of
                  None \<Rightarrow> []
                | Some tcs \<Rightarrow> map functionCallPart tcs)
      in \<lparr>candidates =
            [\<lparr>cand_content = \<lparr>role = Some ''model'', parts = Some ps\<rparr>,
              finishReason = Some fr, cand_index = 0\<rparr>],
          usageMetadata =
            Some \<lparr>promptTokenCount = orZero (resp_prompt_eval_count response),
                  candidatesTokenCount = orZero (resp_eval_count response),
                  totalTokenCount =
                    orZero (resp_prompt_eval_count response) + orZero (resp_eval_count response)\<rparr>,
          modelVersion = resp_model response\<rparr>)"

text \<open>The second argument \<open>_isFirst\<close> of the source is never read and is left out.\<close>

definition convertStreamChunkToGeminiResponse :: "OllamaStreamChunk \<Rightarrow> GenerateContentResponse" where
  "convertStreamChunkToGeminiResponse chunk =
     (let ps = (case chunk_message chunk of
                  None \<Rightarrow> []
                | Some msg \<Rightarrow> if cm_content msg \<noteq> [] then [textPart (cm_content msg)] else []);
          fr = (if chunk_done chunk
                then Some (if chunk_done_reason chunk = Some ''length'' then MAX_TOKENS else STOP)
                else None)
      in \<lparr>candidates =
            [\<lparr>cand_content = \<lparr>role = Some ''model'', parts = Some ps\<rparr>,
              finishReason = fr, cand_index = 0\<rparr>],
          usageMetadata =
            (if chunk_done chunk
             then Some \<lparr>promptTokenCount = orZero (chunk_prompt_eval_count chunk),
                        candidatesTokenCount = orZero (chunk_eval_count chunk),
                        totalTokenCount =
                          orZero (chunk_prompt_eval_count chunk) + orZero (chunk_eval_count chunk)\<rparr>
             else None),
          modelVersion = chunk_model chunk\<rparr>)"

text \<open>
  A part that reaches the \<open>functionResponse\<close> branch of the converter's chain: it carries
  a function response and no non-empty text, inline data or function call.
\<close>

definition isFunctionResponsePart :: "Part \<Rightarrow> bool" where
  "isFunctionResponsePart p =
     (functionResponse p \<noteq> None \<and> \<not> truthy (part_text p) \<and> inlineData p = None \<and>
      functionCall p = None)"

text \<open>A turn that has at least one part.\<close>

definition hasParts :: "Content \<Rightarrow> bool" where
  "hasParts c = (case parts c of None \<Rightarrow> False | Some ps \<Rightarrow> ps \<noteq> [])"

section \<open>The streaming frame decoder (ollamaContentGenerator.ts)\<close>

text \<open>
  JavaScript white space (what \<open>trim\<close> strips and \<open>\s\<close> matches) among the 256 code
  units of the model: tab, line feed, vertical tab, form feed, carriage return, space and
  the no-break space.
\<close>

definition isWhiteSpace :: "char \<Rightarrow> bool" where
  "isWhiteSpace c = (c \<in> set [CHR 0x09, CHR 0x0A, CHR 0x0B, CHR 0x0C, CHR 0x0D, CHR 0x20, CHR 0xA0])"

text \<open>\<open>s.trim()\<close>.\<close>

definition trim :: "string \<Rightarrow> string" where
  "trim s = rev (dropWhile isWhiteSpace (rev (dropWhile isWhiteSpace s)))"

text \<open>\<open>s.split('\n')\<close>: never empty; the last element is the text after the last newline.\<close>

fun splitLines :: "string \<Rightarrow> string list" where
  "splitLines [] = [[]]"
| "splitLines (c # cs) =
     (if c = CHR 0x0A then [] # splitLines cs
      else (c # hd (splitLines cs)) # tl (splitLines cs))"

text \<open>
  What \<open>parseStreamingResponse\<close> does with one candidate line, as a trace. \<open>Decoded\<close> is a
  record that \<open>JSON.parse\<close> returned, with the fragment that was yielded for it (\<open>None\<close>
  when the fragment was suppressed); \<open>ParseFailed\<close> is a line whose \<open>try\<close> block threw, which
  is logged with \<open>debugLogger.debug\<close> and skipped.
\<close>

datatype event =
    Decoded OllamaStreamChunk "GenerateContentResponse option"
  | ParseFailed string

text \<open>\<open>hasParts\<close> of the source: \<open>candidates?.[0]?.content?.parts\<close> exists and is not empty.\<close>

definition responseHasParts :: "GenerateContentResponse \<Rightarrow> bool" where
  "responseHasParts r =
     (case candidates r of
        [] \<Rightarrow> False
      | cand # _ \<Rightarrow> (case parts (cand_content cand) of None \<Rightarrow> False | Some ps \<Rightarrow> length ps > 0))"

text \<open>
  The body of the \<open>for\<close> loop over the complete lines (lines 158 to 180). The parameter
  \<open>parse\<close> is \<open>JSON.parse\<close> read at the type \<open>OllamaStreamChunk\<close>: \<open>None\<close> when the
  \<open>try\<close> block throws.
\<close>

definition processLine :: "(string \<Rightarrow> OllamaStreamChunk option) \<Rightarrow> string \<Rightarrow> event list" where
  "processLine parse line =
     (if trim line = [] then []
      else case parse line of
        None \<Rightarrow> [ParseFailed line]
      | Some chunk \<Rightarrow>
          (let geminiResponse = convertStreamChunkToGeminiResponse chunk
           in if responseHasParts geminiResponse \<or> chunk_done chunk
              then [Decoded chunk (Some geminiResponse)]
              else [Decoded chunk None]))"

text \<open>
  \<open>new TextDecoder()\<close> and \<open>decoder.decode(value, {stream: true})\<close>. The decoder is a
  state machine over bytes: each byte moves it to a new state and emits zero or more code
  units (an incomplete multi-byte sequence is kept in the state, across chunks). Which
  machine it is (UTF-8) is a parameter: the decoder's step function and its initial state.
  A chunk is a list of bytes.
\<close>

record 'st TextDecoder =
  dec_state :: 'st
  dec_step :: "'st \<Rightarrow> char \<Rightarrow> string \<times> 'st"

fun decode :: "'st TextDecoder \<Rightarrow> string \<Rightarrow> string \<times> 'st TextDecoder" where
  "decode dec [] = ([], dec)"
| "decode dec (b # bs) =
     (case dec_step dec (dec_state dec) b of
        (out, st') \<Rightarrow>
          (case decode (dec\<lparr>dec_state := st'\<rparr>) bs of
             (outs, dec') \<Rightarrow> (out @ outs, dec')))"

text \<open>The decoder on ASCII input: every byte is one code unit.\<close>

definition asciiDecoder :: "unit TextDecoder" where
  "asciiDecoder = \<lparr>dec_state = (), dec_step = (\<lambda>st b. ([b], st))\<rparr>"

text \<open>
  Lines 152 to 156: append the decoded chunk to the buffer, split on newline, keep the last
  element as the new buffer.
\<close>

definition takeLines :: "string \<Rightarrow> string \<Rightarrow> string list \<times> string" where
  "takeLines buffer val = (let lines = splitLines (buffer @ val) in (butlast lines, last lines))"

text \<open>
  The \<open>while\<close> loop over a byte source that delivers the given chunks and then ends. It
  returns the candidate lines taken out of the buffer (kept for the buffer invariant), the
  trace of their processing, and the buffer left when the source ends.
\<close>

fun readLoop ::
  "(string \<Rightarrow> OllamaStreamChunk option) \<Rightarrow> 'st TextDecoder \<Rightarrow> string \<Rightarrow> string list \<Rightarrow>
   string list \<times> event list \<times> string"
where
  "readLoop parse dec buffer [] = ([], [], buffer)"
| "readLoop parse dec buffer (val # rest) =
     (case decode dec val of
        (decoded, dec') \<Rightarrow>
          (case takeLines buffer decoded of
             (lines, buffer') \<Rightarrow>
               (case readLoop parse dec' buffer' rest of
                  (ls, evs, b) \<Rightarrow> (lines @ ls, concat (map (processLine parse) lines) @ evs, b))))"

text \<open>Lines 184 to 194: the residual buffer after the source has ended.\<close>

definition processRemaining :: "(string \<Rightarrow> OllamaStreamChunk option) \<Rightarrow> string \<Rightarrow> event list" where
  "processRemaining parse buffer =
     (if trim buffer \<noteq> [] then
        (case parse buffer of
           None \<Rightarrow> [ParseFailed buffer]
         | Some chunk \<Rightarrow> [Decoded chunk (Some (convertStreamChunkToGeminiResponse chunk))])
      else [])"

definition streamTrace ::
  "(string \<Rightarrow> OllamaStreamChunk option) \<Rightarrow> 'st TextDecoder \<Rightarrow> string list \<Rightarrow> event list" where
  "streamTrace parse dec chunks =
     (case readLoop parse dec [] chunks of
        (lines, evs, buffer) \<Rightarrow> evs @ processRemaining parse buffer)"

text \<open>The fragments the generator yields, and the records it decoded, in order.\<close>

fun yielded :: "event list \<Rightarrow> GenerateContentResponse list" where
  "yielded [] = []"
| "yielded (Decoded chunk (Some r) # evs) = r # yielded evs"
| "yielded (e # evs) = yielded evs"

fun decodedRecords :: "event list \<Rightarrow> OllamaStreamChunk list" where
  "decodedRecords [] = []"
| "decodedRecords (Decoded chunk r # evs) = chunk # decodedRecords evs"
| "decodedRecords (ParseFailed line # evs) = decodedRecords evs"

definition parseStreamingResponse ::
  "(string \<Rightarrow> OllamaStreamChunk option) \<Rightarrow> 'st TextDecoder \<Rightarrow> string list \<Rightarrow>
   GenerateContentResponse list" where
  "parseStreamingResponse parse dec chunks = yielded (streamTrace parse dec chunks)"

text \<open>Newline-delimited records: every line followed by a newline.\<close>

definition ndjson :: "string list \<Rightarrow> string" where
  "ndjson ls = concat (map (\<lambda>l. l @ [CHR 0x0A]) ls)"

text \<open>
  A valid record is a line without a newline, not blank, that parses; a corrupted line is a
  line without a newline that does not parse.
\<close>

definition validRecord :: "(string \<Rightarrow> OllamaStreamChunk option) \<Rightarrow> string \<Rightarrow> bool" where
  "validRecord parse l = (CHR 0x0A \<notin> set l \<and> trim l \<noteq> [] \<and> parse l \<noteq> None)"

definition corruptedLine :: "(string \<Rightarrow> OllamaStreamChunk option) \<Rightarrow> string \<Rightarrow> bool" where
  "corruptedLine parse l = (CHR 0x0A \<notin> set l \<and> parse l = None)"

text \<open>The filter of line 173 on a decoded record.\<close>

definition forwarded :: "OllamaStreamChunk \<Rightarrow> bool" where
  "forwarded chunk = (responseHasParts (convertStreamChunkToGeminiResponse chunk) \<or> chunk_done chunk)"

text \<open>
  Example records, and \<open>JSON.parse\<close> on them (every other text used in the examples below
  is not JSON).
\<close>

definition emptyLine :: string where
  \<open>emptyLine = ''{"model":"m","created_at":"t","message":{"role":"assistant","content":""},"done":false}''\<close>

definition emptyChunk :: OllamaStreamChunk where
  "emptyChunk = \<lparr>chunk_model = ''m'', chunk_created_at = ''t'',
     chunk_message = Some \<lparr>cm_role = ''assistant'', cm_content = []\<rparr>, chunk_done = False,
     chunk_done_reason = None, chunk_prompt_eval_count = None, chunk_eval_count = None\<rparr>"

definition helloLine :: string where
  \<open>helloLine = ''{"model":"m","created_at":"t","message":{"role":"assistant","content":"Hi"},"done":false}''\<close>

definition helloChunk :: OllamaStreamChunk where
  "helloChunk = \<lparr>chunk_model = ''m'', chunk_created_at = ''t'',
     chunk_message = Some \<lparr>cm_role = ''assistant'', cm_content = ''Hi''\<rparr>, chunk_done = False,
     chunk_done_reason = None, chunk_prompt_eval_count = None, chunk_eval_count = None\<rparr>"

definition doneLine :: string where
  \<open>doneLine = ''{"model":"m","created_at":"t","done":true,"done_reason":"stop","prompt_eval_count":5,"eval_count":3}''\<close>

definition doneChunk :: OllamaStreamChunk where
  "doneChunk = \<lparr>chunk_model = ''m'', chunk_created_at = ''t'',
     chunk_message = None, chunk_done = True,
     chunk_done_reason = Some ''stop'', chunk_prompt_eval_count = Some 5, chunk_eval_count = Some 3\<rparr>"

definition sampleParse :: "string \<Rightarrow> OllamaStreamChunk option" where
  "sampleParse s =
     (if s = emptyLine then Some emptyChunk
      else if s = helloLine then Some helloChunk
      else if s = doneLine then Some doneChunk
      else None)"

text \<open>The text of a stream of lines, with or without the newline after the last line.\<close>

definition streamText :: "bool \<Rightarrow> string list \<Rightarrow> string" where
  "streamText terminated ls = (if terminated then ndjson ls else ndjson (butlast ls) @ last ls)"

section \<open>Token estimation (ollamaTokenizer.ts)\<close>

text \<open>
  The regular expressions of the tokenizer are written out as functions on text. The
  character classes first: \<open>[.,!?;:'"()\[\]{}]\<close>, \<open>[0-9@#$%^&*+=<>\/\\|`~]\<close>,
  \<open>[\s(){}\[\];,\.]\<close>, \<open>[=+\-*\/%<>&|!~^]\<close>, \<open>["'`]\<close>, \<open>[A-Z]\<close> and \<open>\w\<close>.
\<close>

definition isPunctuation :: "char \<Rightarrow> bool" where
  "isPunctuation c = (c \<in> set (''.,!?;:()[]{}'' @ [CHR 0x27, CHR 0x22]))"

definition isDigit :: "char \<Rightarrow> bool" where
  "isDigit c = (c \<in> set ''0123456789'')"

definition isSpecialChar :: "char \<Rightarrow> bool" where
  "isSpecialChar c = (isDigit c \<or> c \<in> set (''@#$%^&*+=<>/|~'' @ [CHR 0x5C, CHR 0x60]))"

definition isCodeDelimiter :: "char \<Rightarrow> bool" where
  "isCodeDelimiter c = (isWhiteSpace c \<or> c \<in> set ''(){}[];,.'')"

definition isOperator :: "char \<Rightarrow> bool" where
  "isOperator c = (c \<in> set ''=+-*/%<>&|!~^'')"

definition isQuote :: "char \<Rightarrow> bool" where
  "isQuote c = (c \<in> set [CHR 0x22, CHR 0x27, CHR 0x60])"

definition isUpper :: "char \<Rightarrow> bool" where
  "isUpper c = (c \<in> set ''ABCDEFGHIJKLMNOPQRSTUVWXYZ'')"

definition isWordChar :: "char \<Rightarrow> bool" where
  "isWordChar c = (isUpper c \<or> c \<in> set ''abcdefghijklmnopqrstuvwxyz'' \<or> isDigit c \<or> c = CHR ''_'')"

text \<open>
  \<open>s.split(/[class]+/)\<close>: the pieces between the maximal runs of class characters, with an
  empty piece before a leading run and after a trailing run. The first argument is the
  piece being collected.
\<close>

function splitRuns :: "(char \<Rightarrow> bool) \<Rightarrow> string \<Rightarrow> string \<Rightarrow> string list" where
  "splitRuns d cur [] = [cur]"
| "splitRuns d cur (c # cs) =
     (if d c then cur # splitRuns d [] (dropWhile d cs) else splitRuns d (cur @ [c]) cs)"
  by pat_completeness auto

termination
  by (relation "measure (\<lambda>(d, cur, s). length s)")
     (auto simp: less_Suc_eq_le length_dropWhile_le)

text \<open>\<open>split(...).filter((w) => w.length > 0)\<close>.\<close>

definition nonEmptyPieces :: "string list \<Rightarrow> string list" where
  "nonEmptyPieces ps = filter (\<lambda>p. length p > 0) ps"

text \<open>
  \<open>estimateTokenCount\<close>. The source adds 1, 1.5 or \<open>Math.ceil(length / 4)\<close> per word, 0.5
  per punctuation character and 0.3 per special character in double precision; the model
  adds the same amounts as exact rationals and applies the final \<open>Math.ceil\<close>.
\<close>

fun countWords :: "rat \<Rightarrow> string list \<Rightarrow> rat" where
  "countWords tokenCount [] = tokenCount"
| "countWords tokenCount (word # rest) =
     (let t1 = (if length word \<le> 6 then tokenCount + 1
                else if length word \<le> 12 then tokenCount + 3 / 2
                else tokenCount + of_int \<lceil>of_nat (length word) / (4 :: rat)\<rceil>);
          punctuationCount = length (filter isPunctuation word)
      in countWords (t1 + of_nat punctuationCount * (1 / 2)) rest)"

definition estimateTokenCount :: "string \<Rightarrow> int" where
  "estimateTokenCount text =
     (if text = [] then 0
      else (let wrds = nonEmptyPieces (splitRuns isWhiteSpace [] text);
                tokenCount = countWords 0 wrds;
                specialChars = length (filter isSpecialChar text)
            in \<lceil>tokenCount + of_nat specialChars * (3 / 10)\<rceil>))"

definition estimateTokenCountSimple :: "string \<Rightarrow> int" where
  "estimateTokenCountSimple text =
     (if text = [] then 0 else \<lceil>of_nat (length text) / (4 :: rat)\<rceil>)"

text \<open>
  \<open>token.split(/[_-]|(?=[A-Z])/)\<close>: an underscore or hyphen ends the piece and is
  removed; the empty match before an upper-case letter ends the piece only when the piece
  is not empty (\<open>split\<close> ignores an empty match at the start of a piece).
\<close>

fun splitIdent :: "string \<Rightarrow> string \<Rightarrow> string list" where
  "splitIdent cur [] = [cur]"
| "splitIdent cur (c # cs) =
     (if c = CHR ''_'' \<or> c = CHR ''-'' then cur # splitIdent [] cs
      else if isUpper c \<and> cur \<noteq> [] then cur # splitIdent [c] cs
      else splitIdent (cur @ [c]) cs)"

fun countTokens :: "nat \<Rightarrow> string list \<Rightarrow> nat" where
  "countTokens tokenCount [] = tokenCount"
| "countTokens tokenCount (token # rest) =
     (if length token \<le> 8 then countTokens (tokenCount + 1) rest
      else (let prts = nonEmptyPieces (splitIdent [] token)
            in countTokens (tokenCount + max (length prts) 1) rest))"

text \<open>
  The number of matches of \<open>/["'`][^"'`]*["'`]/g\<close>: a match starts at a quote character and
  ends at the next one; the search goes on after the match.
\<close>

function countStrings :: "string \<Rightarrow> nat" where
  "countStrings [] = 0"
| "countStrings (c # cs) =
     (if isQuote c then
        (case dropWhile (\<lambda>x. \<not> isQuote x) cs of
           [] \<Rightarrow> countStrings cs
         | q # rest \<Rightarrow> 1 + countStrings rest)
      else countStrings cs)"
  by pat_completeness auto

termination
proof (relation "measure length")
  show "wf (measure length)" by simp
next
  fix c :: char and cs q rest
  assume "dropWhile (\<lambda>x. \<not> isQuote x) cs = q # rest"
  then have "length (q # rest) \<le> length cs"
    using length_dropWhile_le [of "\<lambda>x. \<not> isQuote x" cs] by simp
  then show "(rest, c # cs) \<in> measure length" by simp
qed simp_all

definition estimateTokenCountForCode :: "string \<Rightarrow> int" where
  "estimateTokenCountForCode code =
     (if code = [] then 0
      else (let tokens = nonEmptyPieces (splitRuns isCodeDelimiter [] code);
                tokenCount = countTokens 0 tokens;
                operators = length (filter isOperator code);
                strings = countStrings code
            in \<lceil>(of_nat (tokenCount + operators + strings * 2) :: rat)\<rceil>))"

text \<open>
  \<open>content.split(/(```[\s\S]*?```|`[^`]+`)/)\<close>. The text is scanned from the left; at each
  position the first alternative (three backticks, the shortest text, three backticks) is
  tried, then the second (a backtick, one or more characters that are not backticks, a
  backtick). The pieces between the matches and the matches themselves (the capture group)
  alternate in the result.
\<close>

definition backtick :: char where
  "backtick = CHR 0x60"

definition fence :: string where
  "fence = [CHR 0x60, CHR 0x60, CHR 0x60]"

text \<open>The first occurrence of three backticks: the text before it and the text after it.\<close>

fun findFence :: "string \<Rightarrow> (string \<times> string) option" where
  "findFence [] = None"
| "findFence (c # cs) =
     (if take 3 (c # cs) = fence then Some ([], drop 3 (c # cs))
      else (case findFence cs of None \<Rightarrow> None | Some (before, after) \<Rightarrow> Some (c # before, after)))"

definition matchFenced :: "string \<Rightarrow> (string \<times> string) option" where
  "matchFenced s =
     (if take 3 s = fence then
        (case findFence (drop 3 s) of
           None \<Rightarrow> None
         | Some (body, after) \<Rightarrow> Some (fence @ body @ fence, after))
      else None)"

definition matchInline :: "string \<Rightarrow> (string \<times> string) option" where
  "matchInline s =
     (case s of
        [] \<Rightarrow> None
      | c # cs \<Rightarrow>
          if c = backtick then
            (let body = takeWhile (\<lambda>x. x \<noteq> backtick) cs;
                 after = dropWhile (\<lambda>x. x \<noteq> backtick) cs
             in if body \<noteq> [] \<and> after \<noteq> [] then Some (backtick # body @ [backtick], tl after)
                else None)
          else None)"

definition matchCodeSpan :: "string \<Rightarrow> (string \<times> string) option" where
  "matchCodeSpan s = (case matchFenced s of Some m \<Rightarrow> Some m | None \<Rightarrow> matchInline s)"

lemma findFence_shorter:
  "findFence s = Some (before, after) \<Longrightarrow> length after \<le> length s"
  by (induction s arbitrary: before) (auto split: if_splits option.splits)

lemma matchCodeSpan_shorter:
  assumes "matchCodeSpan (c # cs) = Some (m, after)"
  shows "length after < Suc (length cs)"
proof (cases "matchFenced (c # cs)")
  case None
  with assms have "matchInline (c # cs) = Some (m, after)"
    by (simp add: matchCodeSpan_def)
  then have "after = tl (dropWhile (\<lambda>x. x \<noteq> backtick) cs)"
    by (auto simp: matchInline_def Let_def split: if_splits)
  then show ?thesis
    using length_dropWhile_le [of "\<lambda>x. x \<noteq> backtick" cs] by simp
next
  case (Some p)
  with assms have "matchFenced (c # cs) = Some (m, after)"
    by (simp add: matchCodeSpan_def)
  then obtain body where "findFence (drop 3 (c # cs)) = Some (body, after)"
    by (auto simp: matchFenced_def split: if_splits option.splits)
  from findFence_shorter [OF this] show ?thesis by simp
qed

function splitCode :: "string \<Rightarrow> string \<Rightarrow> string list" where
  "splitCode cur [] = [cur]"
| "splitCode cur (c # cs) =
     (case matchCodeSpan (c # cs) of
        Some (m, after) \<Rightarrow> cur # m # splitCode [] after
      | None \<Rightarrow> splitCode (cur @ [c]) cs)"
  by pat_completeness auto

termination
  by (relation "measure (\<lambda>(cur, s). length s)") (auto dest: matchCodeSpan_shorter)

text \<open>\<open>part.replace(/^```[\w]*\n?/, '')\<close> and \<open>.replace(/```$/, '')\<close>.\<close>

definition stripOpening :: "string \<Rightarrow> string" where
  "stripOpening s =
     (if take 3 s = fence then
        (let r = dropWhile isWordChar (drop 3 s)
         in case r of [] \<Rightarrow> r | c # cs \<Rightarrow> if c = CHR 0x0A then cs else r)
      else s)"

definition stripClosing :: "string \<Rightarrow> string" where
  "stripClosing s =
     (if 3 \<le> length s \<and> drop (length s - 3) s = fence then take (length s - 3) s else s)"

fun sumParts :: "int \<Rightarrow> string list \<Rightarrow> int" where
  "sumParts totalTokens [] = totalTokens"
| "sumParts totalTokens (part # rest) =
     (if startsWith part fence \<or> startsWith part [backtick] then
        (let code = stripClosing (stripOpening part)
         in sumParts (totalTokens + estimateTokenCountForCode code) rest)
      else sumParts (totalTokens + estimateTokenCount part) rest)"

definition estimateTokenCountMixed :: "string \<Rightarrow> int" where
  "estimateTokenCountMixed content =
     (if content = [] then 0 else sumParts 0 (splitCode [] content))"

section \<open>The adapter facade (ollamaContentGenerator.ts)\<close>

text \<open>
  Thrown values are \<open>Error\<close> objects with a name and a message. \<open>fetch\<close> is a parameter
  that maps a request to its outcome: the promise rejects with an error, or resolves with a
  response (\<open>ok\<close>, \<open>status\<close>, the body text read by \<open>text()\<close> and \<open>json()\<close>, and the body
  stream as the chunks it delivers, \<open>None\<close> for a null body). \<open>json()\<close> is a parameter that
  reads the body text at the expected type or throws. Every operation returns the requests
  it issued, in order, beside its result.
\<close>

record JsError =
  err_name :: string
  err_message :: string

record 'a HttpRequest =
  req_url :: string
  req_method :: string
  req_body :: 'a

record HttpResponse =
  resp_ok :: bool
  resp_status :: nat
  resp_text :: string
  resp_body :: "string list option"

datatype FetchResult = Rejected JsError | Resolved HttpResponse

record OllamaEmbeddingRequest =
  er_model :: string
  er_prompt :: string

record EmbedContentParameters =
  e_model :: string
  e_contents :: "Content list"

text \<open>The constructor stores \<open>baseUrl.replace(/\/$/, '')\<close>.\<close>

definition stripTrailingSlash :: "string \<Rightarrow> string" where
  "stripTrailingSlash baseUrl =
     (if baseUrl \<noteq> [] \<and> last baseUrl = CHR ''/'' then butlast baseUrl else baseUrl)"

text \<open>\<open>s.includes(p)\<close>.\<close>

fun strIncludes :: "string \<Rightarrow> string \<Rightarrow> bool" where
  "strIncludes [] p = (p = [])"
| "strIncludes (c # cs) p = (startsWith (c # cs) p \<or> strIncludes cs p)"

text \<open>A status code in a template literal: its decimal digits.\<close>

fun showNat :: "nat \<Rightarrow> string" where
  "showNat n =
     (if n < 10 then [char_of (48 + n)] else showNat (n div 10) @ [char_of (48 + n mod 10)])"

declare showNat.simps [simp del]

definition newError :: "string \<Rightarrow> JsError" where
  "newError msg = \<lparr>err_name = ''Error'', err_message = msg\<rparr>"

definition connectionError :: "string \<Rightarrow> JsError" where
  "connectionError baseUrl =
     newError (''Cannot connect to Ollama at '' @ baseUrl @ ''. '' @
               ''Please ensure Ollama is running (try: ollama serve)'')"

definition generateContent ::
  "string \<Rightarrow> (OllamaRequest HttpRequest \<Rightarrow> FetchResult) \<Rightarrow> (string \<Rightarrow> JsError + OllamaResponse) \<Rightarrow>
   (json \<Rightarrow> string) \<Rightarrow> GenerateContentParameters \<Rightarrow>
   OllamaRequest HttpRequest list \<times> (JsError + GenerateContentResponse)" where
  "generateContent baseUrl fetch json stringify request =
     (let ollamaRequest = convertToOllamaRequest stringify request False;
          req = \<lparr>req_url = baseUrl @ ''/api/chat'', req_method = ''POST'', req_body = ollamaRequest\<rparr>;
          attempt =
            (case fetch req of
               Rejected e \<Rightarrow> Inl e
             | Resolved response \<Rightarrow>
                 if \<not> resp_ok response then
                   Inl (newError (''Ollama API error ('' @ showNat (resp_status response) @ ''): '' @
                                  resp_text response))
                 else (case json (resp_text response) of
                         Inl e \<Rightarrow> Inl e
                       | Inr ollamaResponse \<Rightarrow> Inr (convertToGeminiResponse ollamaResponse)))
      in ([req],
          case attempt of
            Inr r \<Rightarrow> Inr r
          | Inl error \<Rightarrow>
              if err_name error = ''AbortError'' then Inl error
              else if strIncludes (err_message error) ''ECONNREFUSED'' then Inl (connectionError baseUrl)
              else Inl error))"

text \<open>\<open>generateContentStream\<close> has no \<open>try\<close> block: what \<open>fetch\<close> throws is what the caller gets.\<close>

definition generateContentStream ::
  "string \<Rightarrow> (OllamaRequest HttpRequest \<Rightarrow> FetchResult) \<Rightarrow> (string \<Rightarrow> OllamaStreamChunk option) \<Rightarrow>
   'st TextDecoder \<Rightarrow> (json \<Rightarrow> string) \<Rightarrow> GenerateContentParameters \<Rightarrow>
   OllamaRequest HttpRequest list \<times> (JsError + GenerateContentResponse list)" where
  "generateContentStream baseUrl fetch parse dec stringify request =
     (let ollamaRequest = convertToOllamaRequest stringify request True;
          req = \<lparr>req_url = baseUrl @ ''/api/chat'', req_method = ''POST'', req_body = ollamaRequest\<rparr>
      in ([req],
          case fetch req of
            Rejected e \<Rightarrow> Inl e
          | Resolved response \<Rightarrow>
              if \<not> resp_ok response then
                Inl (newError (''Ollama API error ('' @ showNat (resp_status response) @ ''): '' @
                               resp_text response))
              else (case resp_body response of
                      None \<Rightarrow> Inl (newError ''Ollama response body is null'')
                    | Some chunks \<Rightarrow> Inr (parseStreamingResponse parse dec chunks))))"

text \<open>The two nested loops of \<open>embedContent\<close> that build \<open>text\<close>.\<close>

fun appendPartTexts :: "string \<Rightarrow> Part list \<Rightarrow> string" where
  "appendPartTexts txt [] = txt"
| "appendPartTexts txt (part # rest) =
     (if truthy (part_text part) then appendPartTexts (txt @ the (part_text part) @ '' '') rest
      else appendPartTexts txt rest)"

fun appendContentTexts :: "string \<Rightarrow> Content list \<Rightarrow> string" where
  "appendContentTexts txt [] = txt"
| "appendContentTexts txt (content # rest) =
     (case parts content of
        None \<Rightarrow> appendContentTexts txt rest
      | Some ps \<Rightarrow> appendContentTexts (appendPartTexts txt ps) rest)"

text \<open>Lines 290 to 315 of \<open>embedContent\<close>: what becomes of the outcome of the one request.\<close>

definition embedOutcome ::
  "string \<Rightarrow> (string \<Rightarrow> JsError + rat list) \<Rightarrow> FetchResult \<Rightarrow> JsError + rat list list" where
  "embedOutcome baseUrl json outcome =
     (let attempt =
            (case outcome of
               Rejected e \<Rightarrow> Inl e
             | Resolved response \<Rightarrow>
                 if \<not> resp_ok response then
                   Inl (newError (''Ollama embeddings API error ('' @
                                  showNat (resp_status response) @ ''): '' @ resp_text response))
                 else (case json (resp_text response) of
                         Inl e \<Rightarrow> Inl e
                       | Inr embedding \<Rightarrow> Inr [embedding]))
      in case attempt of
           Inr r \<Rightarrow> Inr r
         | Inl error \<Rightarrow>
             if strIncludes (err_message error) ''ECONNREFUSED'' then Inl (connectionError baseUrl)
             else Inl error)"

definition embedContent ::
  "string \<Rightarrow> (OllamaEmbeddingRequest HttpRequest \<Rightarrow> FetchResult) \<Rightarrow> (string \<Rightarrow> JsError + rat list) \<Rightarrow>
   EmbedContentParameters \<Rightarrow> OllamaEmbeddingRequest HttpRequest list \<times> (JsError + rat list list)" where
  "embedContent baseUrl fetch json request =
     (let txt = appendContentTexts [] (e_contents request)
      in if trim txt = [] then ([], Inl (newError ''No text content found for embedding''))
         else
           (let ollamaRequest = \<lparr>er_model = e_model request, er_prompt = trim txt\<rparr>;
                req = \<lparr>req_url = baseUrl @ ''/api/embeddings'', req_method = ''POST'',
                       req_body = ollamaRequest\<rparr>
            in ([req], embedOutcome baseUrl json (fetch req))))"

text \<open>The non-empty texts of all parts of all turns, in order.\<close>

definition textsOf :: "Content list \<Rightarrow> string list" where
  "textsOf cs =
     concat (map (\<lambda>c. case parts c of
                          None \<Rightarrow> []
                        | Some ps \<Rightarrow> map (\<lambda>p. the (part_text p)) (filter (\<lambda>p. truthy (part_text p)) ps)) cs)"

section \<open>Generation options\<close>

lemma convertGenerationConfig_Some:
  "convertGenerationConfig (Some c) =
     (if temperature c = None \<and> topP c = None \<and> topK c = None \<and> maxOutputTokens c = None \<and>
         (stopSequences c = None \<or> stopSequences c = Some []) \<and> seed c = None
      then None
      else Some \<lparr>o_temperature = temperature c, top_p = topP c, top_k = topK c,
                 num_predict = maxOutputTokens c,
                 stop = (if stopSequences c = Some [] then None else stopSequences c),
                 o_seed = seed c, num_ctx = None\<rparr>)"
  by (cases "temperature c"; cases "topP c"; cases "topK c"; cases "maxOutputTokens c";
      cases "stopSequences c"; cases "seed c")
     (auto simp: convertGenerationConfig_def emptyOptions_def objectKeys_def Let_def)


text \<open>
  C9. The converter copies into the options exactly the fields the caller set, under the
  renames temperature, topP to top_p, topK to top_k, maxOutputTokens to num_predict,
  stopSequences to stop (an empty list counts as unset) and seed; the request's options
  are the result of this conversion, and they are undefined when no field was set (also
  when there is no config at all), never an options object without fields.
\<close>

theorem convertGenerationConfig_copies_set_fields:
  "options (convertToOllamaRequest stringify params strm) = convertGenerationConfig (config params)
   \<and> convertGenerationConfig None = None
   \<and> (convertGenerationConfig (Some c) = None) =
       (temperature c = None \<and> topP c = None \<and> topK c = None \<and> maxOutputTokens c = None \<and>
        (stopSequences c = None \<or> stopSequences c = Some []) \<and> seed c = None)
   \<and> (case convertGenerationConfig (Some c) of
         None \<Rightarrow> True
       | Some opts \<Rightarrow>
           o_temperature opts = temperature c \<and> top_p opts = topP c \<and> top_k opts = topK c \<and>
           num_predict opts = maxOutputTokens c \<and>
           stop opts = (if stopSequences c = Some [] then None else stopSequences c) \<and>
           o_seed opts = seed c \<and> num_ctx opts = None \<and> opts \<noteq> emptyOptions)"
proof -
  have req: "options (convertToOllamaRequest stringify params strm) =
             convertGenerationConfig (config params)"
    by (simp add: convertToOllamaRequest_def Let_def)
  have none: "convertGenerationConfig None = None"
    by (simp add: convertGenerationConfig_def)
  have iff: "(convertGenerationConfig (Some c) = None) =
       (temperature c = None \<and> topP c = None \<and> topK c = None \<and> maxOutputTokens c = None \<and>
        (stopSequences c = None \<or> stopSequences c = Some []) \<and> seed c = None)"
    by (simp add: convertGenerationConfig_Some)
  have fields: "(case convertGenerationConfig (Some c) of
         None \<Rightarrow> True
       | Some opts \<Rightarrow>
           o_temperature opts = temperature c \<and> top_p opts = topP c \<and> top_k opts = topK c \<and>
           num_predict opts = maxOutputTokens c \<and>
           stop opts = (if stopSequences c = Some [] then None else stopSequences c) \<and>
           o_seed opts = seed c \<and> num_ctx opts = None \<and> opts \<noteq> emptyOptions)"
    unfolding convertGenerationConfig_Some
    by (auto simp: emptyOptions_def)
  from req none iff fields show ?thesis by blast
qed

section \<open>Usage metadata\<close>

text \<open>
  C7. In the full-response conversion the usage metadata is always present, its prompt and
  candidate counts are the server's counters with an absent counter read as 0, and its
  total is their sum. In the stream-chunk conversion the usage metadata is defined exactly
  when the chunk has done = true, and then satisfies the same equations.
\<close>

theorem usageMetadata_total_is_sum:
  "(case usageMetadata (convertToGeminiResponse response) of
      None \<Rightarrow> False
    | Some u \<Rightarrow>
        totalTokenCount u = promptTokenCount u + candidatesTokenCount u \<and>
        promptTokenCount u = (case resp_prompt_eval_count response of None \<Rightarrow> 0 | Some n \<Rightarrow> n) \<and>
        candidatesTokenCount u = (case resp_eval_count response of None \<Rightarrow> 0 | Some n \<Rightarrow> n))
   \<and> (usageMetadata (convertStreamChunkToGeminiResponse chunk) \<noteq> None) = chunk_done chunk
   \<and> (case usageMetadata (convertStreamChunkToGeminiResponse chunk) of
        None \<Rightarrow> True
      | Some u \<Rightarrow>
          totalTokenCount u = promptTokenCount u + candidatesTokenCount u \<and>
          promptTokenCount u = (case chunk_prompt_eval_count chunk of None \<Rightarrow> 0 | Some n \<Rightarrow> n) \<and>
          candidatesTokenCount u = (case chunk_eval_count chunk of None \<Rightarrow> 0 | Some n \<Rightarrow> n))"
  by (simp add: convertToGeminiResponse_def convertStreamChunkToGeminiResponse_def Let_def
        orZero_def)

section \<open>Roles and dropped turns\<close>

lemma convertParts_role:
  "fst (convertParts stringify ps rl textParts imgs toolCalls) =
     (if \<exists>p \<in> set ps. isFunctionResponsePart p then RoleTool else rl)"
proof (induction ps arbitrary: rl textParts imgs toolCalls)
  case Nil
  show ?case by simp
next
  case (Cons p ps)
  show ?case
    by (cases "inlineData p"; cases "functionCall p"; cases "functionResponse p")
       (auto simp: Cons.IH isFunctionResponsePart_def)
qed

lemma convertContentToMessage_None:
  "(convertContentToMessage stringify c = None) = (\<not> hasParts c)"
  by (simp add: convertContentToMessage_def hasParts_def Let_def
           split: option.splits list.splits prod.splits del: convertParts.simps)

lemma convertContentToMessage_role:
  assumes "convertContentToMessage stringify c = Some m"
  shows "m_role m =
     (if \<exists>p \<in> set (the (parts c)). isFunctionResponsePart p then RoleTool
      else if role c = Some ''model'' then RoleAssistant
      else if role c = Some ''function'' then RoleTool
      else RoleUser)"
proof -
  from assms obtain p ps where ps: "parts c = Some (p # ps)"
    by (auto simp: convertContentToMessage_def split: option.splits list.splits)
  define rl where "rl = (if role c = Some ''model'' then RoleAssistant
                     else if role c = Some ''function'' then RoleTool
                     else RoleUser)"
  obtain r t i tc where cp: "convertParts stringify (p # ps) rl [] [] None = (r, t, i, tc)"
    by (cases "convertParts stringify (p # ps) rl [] [] None") auto
  have "r = fst (convertParts stringify (p # ps) rl [] [] None)"
    unfolding cp by simp
  then have r: "r = (if \<exists>q \<in> set (p # ps). isFunctionResponsePart q then RoleTool else rl)"
    by (simp only: convertParts_role)
  from assms ps cp have "m_role m = r"
    by (auto simp: convertContentToMessage_def Let_def rl_def simp del: convertParts.simps)
  with r ps show ?thesis by (simp add: rl_def)
qed

text \<open>
  C10. A turn with at least one part whose role is neither 'model' nor 'function' (an
  absent role, 'system', or any other string) always produces a message; its role is
  'tool' when the turn contains a function-response part and 'user' otherwise.
\<close>

theorem role_mapping_total:
  assumes "hasParts c" and "role c \<noteq> Some ''model''" and "role c \<noteq> Some ''function''"
  shows "\<exists>m. convertContentToMessage stringify c = Some m \<and>
             m_role m = (if \<exists>p \<in> set (the (parts c)). isFunctionResponsePart p
                         then RoleTool else RoleUser)"
proof -
  from assms(1) obtain m where m: "convertContentToMessage stringify c = Some m"
    using convertContentToMessage_None [of stringify c] by (cases "convertContentToMessage stringify c") auto
  from convertContentToMessage_role [OF m] assms(2,3) m show ?thesis by simp
qed


theorem role_mapping_total_witness:
  "hasParts \<lparr>role = Some ''system'',
              parts = Some [\<lparr>part_text = None, inlineData = None, functionCall = None,
                             functionResponse = Some \<lparr>fr_response = None\<rparr>\<rparr>]\<rparr>
   \<and> Some ''system'' \<noteq> Some ''model'' \<and> Some ''system'' \<noteq> Some ''function''
   \<and> (\<exists>m. convertContentToMessage (\<lambda>j. [])
              \<lparr>role = Some ''system'',
               parts = Some [\<lparr>part_text = None, inlineData = None, functionCall = None,
                              functionResponse = Some \<lparr>fr_response = None\<rparr>\<rparr>]\<rparr> = Some m
          \<and> m_role m = RoleTool)"
proof -
  let ?c = "\<lparr>role = Some ''system'',
              parts = Some [\<lparr>part_text = None, inlineData = None, functionCall = None,
                             functionResponse = Some \<lparr>fr_response = None\<rparr>\<rparr>]\<rparr>"
  have h1: "hasParts ?c" by (simp add: hasParts_def)
  have h2: "role ?c \<noteq> Some ''model''" by simp
  have h3: "role ?c \<noteq> Some ''function''" by simp
  have frp: "\<exists>p \<in> set (the (parts ?c)). isFunctionResponsePart p"
    by (simp add: isFunctionResponsePart_def truthy_def)
  from role_mapping_total [OF h1 h2 h3, of "\<lambda>j. []"] frp
  have "\<exists>m. convertContentToMessage (\<lambda>j. []) ?c = Some m \<and> m_role m = RoleTool"
    by (simp only: if_True)
  with h1 show ?thesis by simp
qed

text \<open>
  C1, as stated, fails: a turn whose only part is an empty text, or an inline-data part
  that is not an image, is converted to a message with empty content, no images and no
  tool calls, and that message is appended to the request's message list.
\<close>

theorem empty_message_is_appended:
  "convertContentToMessage (\<lambda>j. [])
     \<lparr>role = Some ''user'',
      parts = Some [\<lparr>part_text = Some [], inlineData = None, functionCall = None,
                     functionResponse = None\<rparr>]\<rparr>
     = Some \<lparr>m_role = RoleUser, m_content = [], images = None, tool_calls = None\<rparr>
   \<and> messages (convertToOllamaRequest (\<lambda>j. [])
         \<lparr>p_model = ''llama3.2'',
          contents =
            [\<lparr>role = Some ''user'',
              parts = Some [\<lparr>part_text = Some [], inlineData = None, functionCall = None,
                             functionResponse = None\<rparr>]\<rparr>,
             \<lparr>role = Some ''user'',
              parts = Some [\<lparr>part_text = None,
                             inlineData = Some \<lparr>mimeType = Some ''application/pdf'', blob_data = ''AAAA''\<rparr>,
                             functionCall = None, functionResponse = None\<rparr>]\<rparr>],
          config = None, systemInstruction = None, p_tools = None\<rparr> False)
     = [\<lparr>m_role = RoleUser, m_content = [], images = None, tool_calls = None\<rparr>,
        \<lparr>m_role = RoleUser, m_content = [], images = None, tool_calls = None\<rparr>]"
  by (simp add: convertToOllamaRequest_def convertContentToMessage_def systemMessages_def
        List.map_filter_def truthy_def startsWith_def Let_def)

text \<open>
  C1, amended. A turn is dropped exactly when its parts list is absent or empty. The
  request's messages are the system messages followed by one message for every turn that
  has at least one part, in order, whatever that message carries.
\<close>

theorem turn_dropped_iff_no_parts:
  "(convertContentToMessage stringify c = None) = (parts c = None \<or> parts c = Some [])
   \<and> messages (convertToOllamaRequest stringify params strm) =
       systemMessages params @
       map (\<lambda>c. the (convertContentToMessage stringify c)) (filter hasParts (contents params))"
proof -
  have a: "(convertContentToMessage stringify c = None) = (parts c = None \<or> parts c = Some [])"
    by (auto simp: convertContentToMessage_None hasParts_def split: option.splits)
  have "(\<lambda>c. convertContentToMessage stringify c \<noteq> None) = hasParts"
    by (rule ext) (simp add: convertContentToMessage_None)
  then have b: "messages (convertToOllamaRequest stringify params strm) =
       systemMessages params @
       map (\<lambda>c. the (convertContentToMessage stringify c)) (filter hasParts (contents params))"
    by (simp add: convertToOllamaRequest_def Let_def List.map_filter_def comp_def)
  from a b show ?thesis by blast
qed

section \<open>Chunk-boundary independence\<close>

lemma splitLines_nonempty [simp]: "splitLines s \<noteq> []"
  by (induction s) auto

lemma splitLines_append_aux:
  "splitLines (a @ b) =
     butlast (splitLines a) @ (last (splitLines a) @ hd (splitLines b)) # tl (splitLines b)"
proof (induction a)
  case Nil
  show ?case by simp
next
  case (Cons c a)
  show ?case
  proof (cases "c = CHR 0x0A")
    case True
    then show ?thesis using Cons.IH by simp
  next
    case False
    then show ?thesis using Cons.IH
      by (cases "splitLines a" rule: rev_cases; cases "butlast (splitLines a)") auto
  qed
qed

lemma splitLines_no_newline: "CHR 0x0A \<notin> set s \<Longrightarrow> splitLines s = [s]"
  by (induction s) auto

lemma last_splitLines_no_newline: "CHR 0x0A \<notin> set (last (splitLines s))"
proof (induction s)
  case Nil
  show ?case by simp
next
  case (Cons c s)
  then show ?case
    by (cases "splitLines s"; cases "tl (splitLines s)") auto
qed

lemma splitLines_resume:
  "splitLines (a @ r) = butlast (splitLines a) @ splitLines (last (splitLines a) @ r)"
proof -
  have "splitLines (last (splitLines a) @ r) =
          (last (splitLines a) @ hd (splitLines r)) # tl (splitLines r)"
    using splitLines_append_aux [of "last (splitLines a)" r]
    by (simp add: splitLines_no_newline [OF last_splitLines_no_newline])
  then show ?thesis
    using splitLines_append_aux [of a r] by simp
qed

lemma splitLines_rejoin:
  "concat (map (\<lambda>l. l @ [CHR 0x0A]) (butlast (splitLines s))) @ last (splitLines s) = s"
proof (induction s)
  case Nil
  show ?case by simp
next
  case (Cons c s)
  then show ?case
    by (cases "splitLines s"; cases "tl (splitLines s)") auto
qed

lemma decode_append:
  "decode dec (a @ b) =
     (fst (decode dec a) @ fst (decode (snd (decode dec a)) b), snd (decode (snd (decode dec a)) b))"
  by (induction a arbitrary: dec) (auto split: prod.splits)

lemma decode_asciiDecoder: "decode asciiDecoder bs = (bs, asciiDecoder)"
proof (induction bs)
  case Nil
  show ?case by simp
next
  case (Cons b bs)
  have "asciiDecoder\<lparr>dec_state := ()\<rparr> = asciiDecoder" by simp
  with Cons show ?case by (simp add: asciiDecoder_def)
qed

lemma readLoop_eq:
  assumes "CHR 0x0A \<notin> set buffer"
  shows "readLoop parse dec buffer chunks =
           (butlast (splitLines (buffer @ fst (decode dec (concat chunks)))),
            concat (map (processLine parse)
              (butlast (splitLines (buffer @ fst (decode dec (concat chunks)))))),
            last (splitLines (buffer @ fst (decode dec (concat chunks)))))"
  using assms
proof (induction chunks arbitrary: buffer dec)
  case Nil
  then show ?case by (simp add: splitLines_no_newline)
next
  case (Cons v chunks)
  obtain t d where dv: "decode dec v = (t, d)" by (cases "decode dec v") auto
  let ?r = "fst (decode d (concat chunks))"
  let ?b = "last (splitLines (buffer @ t))"
  have nb: "CHR 0x0A \<notin> set ?b" by (rule last_splitLines_no_newline)
  have dc: "fst (decode dec (concat (v # chunks))) = t @ ?r"
    by (simp add: decode_append dv)
  have sp: "splitLines (buffer @ t @ ?r) =
              butlast (splitLines (buffer @ t)) @ splitLines (?b @ ?r)"
    using splitLines_resume [of "buffer @ t" ?r] by simp
  show ?case
    unfolding dc
    by (simp add: dv takeLines_def Let_def Cons.IH [OF nb] sp butlast_append)
qed

lemma streamTrace_eq:
  "streamTrace parse dec chunks =
     concat (map (processLine parse) (butlast (splitLines (fst (decode dec (concat chunks)))))) @
     processRemaining parse (last (splitLines (fst (decode dec (concat chunks)))))"
  by (simp add: streamTrace_def readLoop_eq)

text \<open>
  C3. For every decoder, every byte sequence and every chunking of it, the streaming
  decoder produces the same trace (hence the same decoded records and the same yielded
  fragments) as for the sequence delivered as one chunk, also when every chunk is a single
  byte. When the source ends, the lines taken out of the buffer, each followed by a
  newline, and then the buffer, are exactly the decoded text of the bytes received; the
  buffer holds no newline; and the trace is the processing of those lines in order.
\<close>

theorem chunk_boundary_independence:
  "streamTrace parse dec chunks = streamTrace parse dec [concat chunks]
   \<and> streamTrace parse dec (map (\<lambda>b. [b]) bytes) = streamTrace parse dec [bytes]
   \<and> decodedRecords (streamTrace parse dec chunks) =
       decodedRecords (streamTrace parse dec [concat chunks])
   \<and> parseStreamingResponse parse dec chunks = parseStreamingResponse parse dec [concat chunks]
   \<and> (case readLoop parse dec [] chunks of
         (lines, evs, buffer) \<Rightarrow>
           concat (map (\<lambda>l. l @ [CHR 0x0A]) lines) @ buffer = fst (decode dec (concat chunks)) \<and>
           CHR 0x0A \<notin> set buffer \<and>
           evs = concat (map (processLine parse) lines))"
proof -
  have a: "streamTrace parse dec chunks = streamTrace parse dec [concat chunks]"
    by (simp add: streamTrace_eq)
  have "concat (map (\<lambda>b. [b]) bytes) = bytes"
    by (induction bytes) auto
  then have b: "streamTrace parse dec (map (\<lambda>b. [b]) bytes) = streamTrace parse dec [bytes]"
    by (simp add: streamTrace_eq)
  have c: "(case readLoop parse dec [] chunks of
         (lines, evs, buffer) \<Rightarrow>
           concat (map (\<lambda>l. l @ [CHR 0x0A]) lines) @ buffer = fst (decode dec (concat chunks)) \<and>
           CHR 0x0A \<notin> set buffer \<and>
           evs = concat (map (processLine parse) lines))"
    by (simp add: readLoop_eq splitLines_rejoin last_splitLines_no_newline)
  from a b c show ?thesis
    by (simp add: parseStreamingResponse_def)
qed

lemma splitLines_line:
  "CHR 0x0A \<notin> set l \<Longrightarrow> splitLines (l @ CHR 0x0A # t) = l # splitLines t"
  by (induction l) auto

lemma splitLines_ndjson:
  assumes "\<forall>l \<in> set ls. CHR 0x0A \<notin> set l" and "CHR 0x0A \<notin> set r"
  shows "splitLines (ndjson ls @ r) = ls @ [r]"
  using assms
  by (induction ls) (auto simp: ndjson_def splitLines_line splitLines_no_newline)

lemma decodedRecords_append:
  "decodedRecords (xs @ ys) = decodedRecords xs @ decodedRecords ys"
  by (induction xs rule: decodedRecords.induct) auto

lemma yielded_append: "yielded (xs @ ys) = yielded xs @ yielded ys"
  by (induction xs rule: yielded.induct) auto

lemma streamTrace_ndjson:
  assumes "\<forall>l \<in> set ls. CHR 0x0A \<notin> set l" and "CHR 0x0A \<notin> set r"
    and "fst (decode dec (concat chunks)) = ndjson ls @ r"
  shows "streamTrace parse dec chunks =
           concat (map (processLine parse) ls) @ processRemaining parse r"
  by (simp add: streamTrace_eq assms(3) splitLines_ndjson [OF assms(1,2)])

lemma decodedRecords_lines_valid:
  assumes "\<forall>l \<in> set ls. validRecord parse l"
  shows "decodedRecords (concat (map (processLine parse) ls)) = map (\<lambda>l. the (parse l)) ls"
  using assms
  by (induction ls) (auto simp: decodedRecords_append processLine_def validRecord_def Let_def)

lemma yielded_lines_valid:
  assumes "\<forall>l \<in> set ls. validRecord parse l \<and> forwarded (the (parse l))"
  shows "yielded (concat (map (processLine parse) ls)) =
           map (\<lambda>l. convertStreamChunkToGeminiResponse (the (parse l))) ls"
  using assms
  by (induction ls)
     (auto simp: yielded_append processLine_def validRecord_def forwarded_def Let_def)

lemma processLine_corrupted:
  "corruptedLine parse l \<Longrightarrow> decodedRecords (processLine parse l) = [] \<and> yielded (processLine parse l) = []"
  by (simp add: processLine_def corruptedLine_def)

lemma processRemaining_corrupted:
  "corruptedLine parse l \<Longrightarrow>
     decodedRecords (processRemaining parse l) = [] \<and> yielded (processRemaining parse l) = []"
  by (simp add: processRemaining_def corruptedLine_def)

lemma processRemaining_valid:
  "validRecord parse l \<Longrightarrow>
     decodedRecords (processRemaining parse l) = [the (parse l)] \<and>
     yielded (processRemaining parse l) = [convertStreamChunkToGeminiResponse (the (parse l))]"
  by (auto simp: processRemaining_def validRecord_def)

lemma processRemaining_empty: "processRemaining parse [] = []"
  by (simp add: processRemaining_def trim_def)

section \<open>Resilience to a malformed line\<close>

lemma trace_of_lines:
  assumes nl: "\<forall>l \<in> set ls. CHR 0x0A \<notin> set l" and ne: "ls \<noteq> []"
    and stm: "fst (decode dec (concat chunks)) = streamText terminated ls"
  shows "streamTrace parse dec chunks =
           (if terminated then concat (map (processLine parse) ls)
            else concat (map (processLine parse) (butlast ls)) @ processRemaining parse (last ls))"
proof (cases terminated)
  case True
  with stm have "fst (decode dec (concat chunks)) = ndjson ls @ []" by (simp add: streamText_def)
  from streamTrace_ndjson [OF nl _ this, of parse] True show ?thesis
    by (simp add: processRemaining_empty)
next
  case False
  with stm have t: "fst (decode dec (concat chunks)) = ndjson (butlast ls) @ last ls"
    by (simp add: streamText_def)
  have a: "\<forall>l \<in> set (butlast ls). CHR 0x0A \<notin> set l"
    using nl by (auto dest: in_set_butlastD)
  have b: "CHR 0x0A \<notin> set (last ls)" using nl ne by simp
  from streamTrace_ndjson [OF a b t, of parse] False show ?thesis by simp
qed

text \<open>
  C5. Take N valid records and one corrupted line inserted anywhere, delivered as
  newline-delimited text (with or without the final newline) in any chunking. The decoder
  decodes exactly the N valid records, in order, none lost or duplicated: the corrupted
  line is skipped and the stream goes on. The decoded records are the chunks that
  \<open>JSON.parse\<close> returned; when every record passes the forwarding filter, the generator
  yields exactly the N converted fragments.
\<close>

theorem malformed_line_is_skipped:
  assumes valid: "\<forall>l \<in> set (pre @ post). validRecord parse l"
    and bad: "corruptedLine parse bad"
    and stm: "fst (decode dec (concat chunks)) = streamText terminated (pre @ [bad] @ post)"
  shows "decodedRecords (streamTrace parse dec chunks) = map (\<lambda>l. the (parse l)) (pre @ post)
       \<and> length (decodedRecords (streamTrace parse dec chunks)) = length pre + length post
       \<and> ((\<forall>l \<in> set (pre @ post). forwarded (the (parse l))) \<longrightarrow>
            parseStreamingResponse parse dec chunks =
              map (\<lambda>l. convertStreamChunkToGeminiResponse (the (parse l))) (pre @ post))"
proof -
  let ?ls = "pre @ [bad] @ post"
  let ?rec = "\<lambda>l. the (parse l)"
  let ?conv = "\<lambda>l. convertStreamChunkToGeminiResponse (the (parse l))"
  have vpre: "\<forall>l \<in> set pre. validRecord parse l" and vpost: "\<forall>l \<in> set post. validRecord parse l"
    using valid by auto
  have nl: "\<forall>l \<in> set ?ls. CHR 0x0A \<notin> set l"
    using valid bad by (auto simp: validRecord_def corruptedLine_def)
  have ne: "?ls \<noteq> []" by simp
  note tr = trace_of_lines [OF nl ne stm, of parse]
  have bl: "decodedRecords (processLine parse bad) = []" "yielded (processLine parse bad) = []"
    using processLine_corrupted [OF bad] by auto
  have br: "decodedRecords (processRemaining parse bad) = []"
           "yielded (processRemaining parse bad) = []"
    using processRemaining_corrupted [OF bad] by auto
  have recs: "decodedRecords (streamTrace parse dec chunks) = map ?rec (pre @ post)"
  proof (cases terminated)
    case True
    with tr show ?thesis
      by (simp add: decodedRecords_append decodedRecords_lines_valid [OF vpre]
            decodedRecords_lines_valid [OF vpost] bl)
  next
    case False
    show ?thesis
    proof (cases post rule: rev_cases)
      case Nil
      with tr False show ?thesis
        by (simp add: decodedRecords_append decodedRecords_lines_valid [OF vpre] br)
    next
      case (snoc post' l)
      have vp': "\<forall>l \<in> set post'. validRecord parse l" and vl: "validRecord parse l"
        using vpost snoc by auto
      have bl': "butlast (pre @ bad # post' @ [l]) = pre @ bad # post'"
        by (simp add: butlast_append)
      from tr False snoc show ?thesis
        by (simp add: bl' decodedRecords_append decodedRecords_lines_valid [OF vpre]
              decodedRecords_lines_valid [OF vp'] bl processRemaining_valid [OF vl])
    qed
  qed
  have ylds: "parseStreamingResponse parse dec chunks = map ?conv (pre @ post)"
    if fw: "\<forall>l \<in> set (pre @ post). forwarded (the (parse l))"
  proof -
    have fpre: "\<forall>l \<in> set pre. validRecord parse l \<and> forwarded (the (parse l))"
      and fpost: "\<forall>l \<in> set post. validRecord parse l \<and> forwarded (the (parse l))"
      using valid fw by auto
    show ?thesis
    proof (cases terminated)
      case True
      with tr show ?thesis
        by (simp add: parseStreamingResponse_def yielded_append yielded_lines_valid [OF fpre]
              yielded_lines_valid [OF fpost] bl)
    next
      case False
      show ?thesis
      proof (cases post rule: rev_cases)
        case Nil
        with tr False show ?thesis
          by (simp add: parseStreamingResponse_def yielded_append
                yielded_lines_valid [OF fpre] br)
      next
        case (snoc post' l)
        have fp': "\<forall>l \<in> set post'. validRecord parse l \<and> forwarded (the (parse l))"
          and vl: "validRecord parse l"
          using fpost snoc by auto
        have bl': "butlast (pre @ bad # post' @ [l]) = pre @ bad # post'"
          by (simp add: butlast_append)
        from tr False snoc show ?thesis
          by (simp add: bl' parseStreamingResponse_def yielded_append
                yielded_lines_valid [OF fpre] yielded_lines_valid [OF fp'] bl
                processRemaining_valid [OF vl])
      qed
    qed
  qed
  from recs ylds show ?thesis by simp
qed

lemma sample_lines_valid:
  "validRecord sampleParse helloLine" "validRecord sampleParse doneLine"
  "validRecord sampleParse emptyLine"
  by (simp_all add: validRecord_def sampleParse_def helloLine_def doneLine_def emptyLine_def
        trim_def isWhiteSpace_def)

theorem malformed_line_is_skipped_witness:
  \<open>validRecord sampleParse helloLine \<and> validRecord sampleParse doneLine
   \<and> corruptedLine sampleParse ''{"model":''
   \<and> fst (decode asciiDecoder
         (concat [helloLine @ [CHR 0x0A] @ ''{"mo'', ''del":'' @ [CHR 0x0A] @ doneLine @ [CHR 0x0A]]))
       = streamText True ([helloLine] @ [''{"model":''] @ [doneLine])
   \<and> decodedRecords (streamTrace sampleParse asciiDecoder
         [helloLine @ [CHR 0x0A] @ ''{"mo'', ''del":'' @ [CHR 0x0A] @ doneLine @ [CHR 0x0A]])
       = [helloChunk, doneChunk]
   \<and> parseStreamingResponse sampleParse asciiDecoder
         [helloLine @ [CHR 0x0A] @ ''{"mo'', ''del":'' @ [CHR 0x0A] @ doneLine @ [CHR 0x0A]]
       = [convertStreamChunkToGeminiResponse helloChunk,
          convertStreamChunkToGeminiResponse doneChunk]\<close>
proof -
  let ?bad = \<open>''{"model":''\<close>
  let ?chunks = \<open>[helloLine @ [CHR 0x0A] @ ''{"mo'', ''del":'' @ [CHR 0x0A] @ doneLine @ [CHR 0x0A]]\<close>
  have v: "\<forall>l \<in> set ([helloLine] @ [doneLine]). validRecord sampleParse l"
    using sample_lines_valid by simp
  have b: "corruptedLine sampleParse ?bad"
    by (simp add: corruptedLine_def sampleParse_def helloLine_def doneLine_def emptyLine_def)
  have t: "fst (decode asciiDecoder (concat ?chunks)) =
             streamText True ([helloLine] @ [?bad] @ [doneLine])"
    by (simp add: decode_asciiDecoder streamText_def ndjson_def)
  have p: "sampleParse helloLine = Some helloChunk" "sampleParse doneLine = Some doneChunk"
    by (simp_all add: sampleParse_def helloLine_def doneLine_def emptyLine_def)
  have f: "\<forall>l \<in> set ([helloLine] @ [doneLine]). forwarded (the (sampleParse l))"
    by (simp add: p forwarded_def helloChunk_def doneChunk_def responseHasParts_def
          convertStreamChunkToGeminiResponse_def)
  from malformed_line_is_skipped [OF v b t] f p
  have r: "decodedRecords (streamTrace sampleParse asciiDecoder ?chunks) = [helloChunk, doneChunk]
         \<and> parseStreamingResponse sampleParse asciiDecoder ?chunks
           = [convertStreamChunkToGeminiResponse helloChunk,
              convertStreamChunkToGeminiResponse doneChunk]"
    by simp
  from r sample_lines_valid(1,2) b t show ?thesis by blast
qed

section \<open>The emptiness filter\<close>

text \<open>
  The main loop does filter: a fragment it yields has a part or a finish reason (its chunk
  has done = true).
\<close>

lemma processLine_yields_filtered:
  assumes "r \<in> set (yielded (processLine parse line))"
  shows "responseHasParts r \<or> finishReason (hd (candidates r)) \<noteq> None"
proof -
  from assms obtain chunk where r: "r = convertStreamChunkToGeminiResponse chunk"
    and f: "responseHasParts r \<or> chunk_done chunk"
    by (auto simp: processLine_def Let_def split: if_splits option.splits)
  have "chunk_done chunk \<Longrightarrow> finishReason (hd (candidates r)) \<noteq> None"
    by (simp add: r convertStreamChunkToGeminiResponse_def)
  with f show ?thesis by blast
qed

lemma main_loop_yields_filtered:
  assumes "r \<in> set (yielded (concat (map (processLine parse) lines)))"
  shows "responseHasParts r \<or> finishReason (hd (candidates r)) \<noteq> None"
  using assms
  by (induction lines) (auto simp: yielded_append dest: processLine_yields_filtered)

text \<open>
  C2. The record with empty content and done = false, left in the buffer when the source
  ends (no final newline), is yielded as a fragment with no parts and no finish reason, by
  \<open>parseStreamingResponse\<close> and so by \<open>generateContentStream\<close>; the same record followed by
  a newline is suppressed by the filter of the main loop.
\<close>

theorem residual_record_is_yielded_unfiltered:
  "parseStreamingResponse sampleParse asciiDecoder [emptyLine] =
     [\<lparr>candidates = [\<lparr>cand_content = \<lparr>role = Some ''model'', parts = Some []\<rparr>,
                       finishReason = None, cand_index = 0\<rparr>],
       usageMetadata = None, modelVersion = ''m''\<rparr>]
   \<and> snd (generateContentStream ''http://localhost:11434''
            (\<lambda>r. Resolved \<lparr>resp_ok = True, resp_status = 200, resp_text = [],
                             resp_body = Some [emptyLine]\<rparr>)
            sampleParse asciiDecoder stringify request) =
       Inr [\<lparr>candidates = [\<lparr>cand_content = \<lparr>role = Some ''model'', parts = Some []\<rparr>,
                              finishReason = None, cand_index = 0\<rparr>],
             usageMetadata = None, modelVersion = ''m''\<rparr>]
   \<and> parseStreamingResponse sampleParse asciiDecoder [emptyLine @ [CHR 0x0A]] = []"
proof -
  have nl: "CHR 0x0A \<notin> set emptyLine" by (simp add: emptyLine_def)
  have tr: "trim emptyLine \<noteq> []" using sample_lines_valid(3) by (simp add: validRecord_def)
  have p: "sampleParse emptyLine = Some emptyChunk" by (simp add: sampleParse_def)
  have a: "splitLines emptyLine = [emptyLine]" by (rule splitLines_no_newline [OF nl])
  have b: "splitLines (emptyLine @ [CHR 0x0A]) = [emptyLine, []]"
    using splitLines_line [OF nl, of "[]"] by simp
  have c: "convertStreamChunkToGeminiResponse emptyChunk =
     \<lparr>candidates = [\<lparr>cand_content = \<lparr>role = Some ''model'', parts = Some []\<rparr>,
                       finishReason = None, cand_index = 0\<rparr>],
       usageMetadata = None, modelVersion = ''m''\<rparr>"
    by (simp add: convertStreamChunkToGeminiResponse_def emptyChunk_def)
  have d: "chunk_done emptyChunk = False" by (simp add: emptyChunk_def)
  have e: "processRemaining sampleParse emptyLine =
             [Decoded emptyChunk (Some (convertStreamChunkToGeminiResponse emptyChunk))]"
    by (simp add: processRemaining_def tr p)
  have l: "processLine sampleParse emptyLine = [Decoded emptyChunk None]"
    by (simp add: processLine_def tr p c d responseHasParts_def)
  have y1: "parseStreamingResponse sampleParse asciiDecoder [emptyLine] =
     [\<lparr>candidates = [\<lparr>cand_content = \<lparr>role = Some ''model'', parts = Some []\<rparr>,
                       finishReason = None, cand_index = 0\<rparr>],
       usageMetadata = None, modelVersion = ''m''\<rparr>]"
    by (simp add: parseStreamingResponse_def streamTrace_eq decode_asciiDecoder a e c)
  have y2: "parseStreamingResponse sampleParse asciiDecoder [emptyLine @ [CHR 0x0A]] = []"
    by (simp add: parseStreamingResponse_def streamTrace_eq decode_asciiDecoder b l
          processRemaining_empty)
  have g: "snd (generateContentStream ''http://localhost:11434''
            (\<lambda>r. Resolved \<lparr>resp_ok = True, resp_status = 200, resp_text = [],
                             resp_body = Some [emptyLine]\<rparr>)
            sampleParse asciiDecoder stringify request) =
           Inr (parseStreamingResponse sampleParse asciiDecoder [emptyLine])"
    by (simp add: generateContentStream_def Let_def)
  from y1 y2 g show ?thesis by simp
qed

section \<open>Token estimators\<close>

lemma dropWhile_has_other:
  "(\<exists>c \<in> set (dropWhile d cs). \<not> d c) = (\<exists>c \<in> set cs. \<not> d c)"
  by (induction cs) auto

lemma splitRuns_nonempty_piece:
  "(\<exists>p \<in> set (splitRuns d cur s). p \<noteq> []) = (cur \<noteq> [] \<or> (\<exists>c \<in> set s. \<not> d c))"
proof (induction d cur s rule: splitRuns.induct)
  case (1 d cur)
  show ?case by simp
next
  case (2 d cur c cs)
  show ?case
  proof (cases "d c")
    case True
    with 2 show ?thesis by (simp add: dropWhile_has_other)
  next
    case False
    with 2 show ?thesis by auto
  qed
qed

lemma nonEmptyPieces_splitRuns:
  "(nonEmptyPieces (splitRuns d [] s) = []) = (\<forall>c \<in> set s. d c)"
proof -
  have "(nonEmptyPieces (splitRuns d [] s) = []) = (\<not> (\<exists>p \<in> set (splitRuns d [] s). p \<noteq> []))"
    by (auto simp: nonEmptyPieces_def filter_empty_conv)
  then show ?thesis by (simp add: splitRuns_nonempty_piece)
qed

lemma countWords_lower: "t + of_nat (length ws) \<le> countWords t ws"
proof (induction ws arbitrary: t)
  case Nil
  show ?case by simp
next
  case (Cons w ws)
  let ?t1 = "(if length w \<le> 6 then t + 1
                else if length w \<le> 12 then t + 3 / 2
                else t + of_int \<lceil>of_nat (length w) / (4 :: rat)\<rceil>)"
  let ?t2 = "?t1 + of_nat (length (filter isPunctuation w)) * (1 / 2)"
  have "(1::rat) \<le> of_int \<lceil>of_nat (length w) / (4 :: rat)\<rceil>" if "12 < length w"
  proof -
    from that have "w \<noteq> []" by auto
    then have "0 < \<lceil>of_nat (length w) / (4 :: rat)\<rceil>" by simp
    then show ?thesis by simp
  qed
  then have "t + 1 \<le> ?t1" by auto
  moreover have "(0::rat) \<le> of_nat (length (filter isPunctuation w)) * (1 / 2)" by simp
  ultimately have "t + 1 \<le> ?t2" by linarith
  moreover have "?t2 + of_nat (length ws) \<le> countWords ?t2 ws" by (rule Cons.IH)
  ultimately have "t + 1 + of_nat (length ws) \<le> countWords ?t2 ws" by linarith
  then show ?case by (simp add: Let_def add.assoc add.commute)
qed

lemma estimateTokenCount_nonneg: "0 \<le> estimateTokenCount s"
proof (cases "s = []")
  case True
  then show ?thesis by (simp add: estimateTokenCount_def)
next
  case False
  let ?ws = "nonEmptyPieces (splitRuns isWhiteSpace [] s)"
  have "0 + of_nat (length ?ws) \<le> countWords 0 ?ws" by (rule countWords_lower)
  then have "(0::rat) \<le> countWords 0 ?ws + of_nat (length (filter isSpecialChar s)) * (3 / 10)"
    by simp
  with False show ?thesis by (simp add: estimateTokenCount_def Let_def)
qed

lemma isSpecialChar_not_space: "isWhiteSpace c \<Longrightarrow> \<not> isSpecialChar c"
  by (auto simp: isWhiteSpace_def isSpecialChar_def isDigit_def)

lemma estimateTokenCount_pos_iff:
  "(1 \<le> estimateTokenCount s) = (\<exists>c \<in> set s. \<not> isWhiteSpace c)"
proof (cases "\<exists>c \<in> set s. \<not> isWhiteSpace c")
  case True
  then have ne: "s \<noteq> []" by auto
  let ?ws = "nonEmptyPieces (splitRuns isWhiteSpace [] s)"
  from True have "?ws \<noteq> []" by (simp add: nonEmptyPieces_splitRuns)
  then have "1 \<le> length ?ws" by (cases ?ws) auto
  then have "(1::rat) \<le> of_nat (length ?ws)" by simp
  moreover have "0 + of_nat (length ?ws) \<le> countWords 0 ?ws" by (rule countWords_lower)
  ultimately have "(1::rat) \<le> countWords 0 ?ws + of_nat (length (filter isSpecialChar s)) * (3 / 10)"
    by (simp add: add_increasing2)
  then have "1 \<le> \<lceil>countWords 0 ?ws + of_nat (length (filter isSpecialChar s)) * (3 / 10)\<rceil>"
    by (simp add: le_ceiling_iff)
  with ne True show ?thesis by (simp add: estimateTokenCount_def Let_def)
next
  case False
  then have all: "\<forall>c \<in> set s. isWhiteSpace c" by simp
  then have ws: "nonEmptyPieces (splitRuns isWhiteSpace [] s) = []"
    by (simp add: nonEmptyPieces_splitRuns)
  from all have sp: "filter isSpecialChar s = []"
    by (auto simp: filter_empty_conv dest: isSpecialChar_not_space)
  from False show ?thesis by (simp add: estimateTokenCount_def Let_def ws sp)
qed

lemma estimateTokenCountSimple_pos: "s \<noteq> [] \<Longrightarrow> 1 \<le> estimateTokenCountSimple s"
proof -
  assume "s \<noteq> []"
  then have "0 < \<lceil>of_nat (length s) / (4 :: rat)\<rceil>" by simp
  with \<open>s \<noteq> []\<close> show ?thesis by (simp add: estimateTokenCountSimple_def)
qed

lemma estimateTokenCountSimple_nonneg: "0 \<le> estimateTokenCountSimple s"
  using estimateTokenCountSimple_pos [of s] by (cases "s = []") (auto simp: estimateTokenCountSimple_def)

lemma estimateTokenCountForCode_nonneg: "0 \<le> estimateTokenCountForCode s"
  by (simp add: estimateTokenCountForCode_def Let_def)

lemma countTokens_lower: "t + length ts \<le> countTokens t ts"
proof (induction ts arbitrary: t)
  case Nil
  show ?case by simp
next
  case (Cons a ts)
  show ?case
  proof (cases "length a \<le> 8")
    case True
    with Cons.IH [of "t + 1"] show ?thesis by simp
  next
    case False
    let ?n = "max (length (nonEmptyPieces (splitIdent [] a))) 1"
    have "1 \<le> ?n" by simp
    with Cons.IH [of "t + ?n"] False show ?thesis by (simp add: Let_def)
  qed
qed

lemma countStrings_none: "\<forall>c \<in> set s. \<not> isQuote c \<Longrightarrow> countStrings s = 0"
  by (induction s) auto

lemma delimiter_plain:
  "isCodeDelimiter c \<Longrightarrow> \<not> isOperator c \<and> \<not> isQuote c"
  by (auto simp: isCodeDelimiter_def isWhiteSpace_def isOperator_def isQuote_def)

lemma estimateTokenCountForCode_pos_iff:
  "(1 \<le> estimateTokenCountForCode s) = (\<exists>c \<in> set s. \<not> isCodeDelimiter c)"
proof (cases "\<exists>c \<in> set s. \<not> isCodeDelimiter c")
  case True
  then have ne: "s \<noteq> []" by auto
  let ?ts = "nonEmptyPieces (splitRuns isCodeDelimiter [] s)"
  from True have "?ts \<noteq> []" by (simp add: nonEmptyPieces_splitRuns)
  then have "1 \<le> length ?ts" by (cases ?ts) auto
  moreover have "0 + length ?ts \<le> countTokens 0 ?ts" by (rule countTokens_lower)
  ultimately have "1 \<le> countTokens 0 ?ts" by simp
  with ne True show ?thesis by (simp add: estimateTokenCountForCode_def Let_def)
next
  case False
  then have all: "\<forall>c \<in> set s. isCodeDelimiter c" by simp
  then have ts: "nonEmptyPieces (splitRuns isCodeDelimiter [] s) = []"
    by (simp add: nonEmptyPieces_splitRuns)
  from all have op: "filter isOperator s = []"
    by (auto simp: filter_empty_conv dest: delimiter_plain)
  from all have "\<forall>c \<in> set s. \<not> isQuote c" by (auto dest: delimiter_plain)
  then have st: "countStrings s = 0" by (rule countStrings_none)
  from False show ?thesis by (simp add: estimateTokenCountForCode_def Let_def ts op st)
qed

lemma sumParts_lower: "t \<le> sumParts t ps"
proof (induction ps arbitrary: t)
  case Nil
  show ?case by simp
next
  case (Cons p ps)
  show ?case
  proof (cases "startsWith p fence \<or> startsWith p [backtick]")
    case True
    let ?n = "estimateTokenCountForCode (stripClosing (stripOpening p))"
    have "0 \<le> ?n" by (rule estimateTokenCountForCode_nonneg)
    with Cons.IH [of "t + ?n"] True show ?thesis by (simp add: Let_def)
  next
    case False
    have "0 \<le> estimateTokenCount p" by (rule estimateTokenCount_nonneg)
    with Cons.IH [of "t + estimateTokenCount p"] False show ?thesis by simp
  qed
qed

lemma estimateTokenCountMixed_nonneg: "0 \<le> estimateTokenCountMixed s"
  using sumParts_lower [of 0 "splitCode [] s"] by (simp add: estimateTokenCountMixed_def)

lemma matchCodeSpan_no_backtick: "c \<noteq> backtick \<Longrightarrow> matchCodeSpan (c # cs) = None"
  by (simp add: matchCodeSpan_def matchFenced_def matchInline_def fence_def backtick_def)

lemma splitCode_no_backtick: "backtick \<notin> set s \<Longrightarrow> splitCode cur s = [cur @ s]"
  by (induction s arbitrary: cur) (auto simp: matchCodeSpan_no_backtick)

lemma estimateTokenCountMixed_plain:
  assumes "backtick \<notin> set s"
  shows "estimateTokenCountMixed s = estimateTokenCount s"
proof (cases s)
  case Nil
  then show ?thesis by (simp add: estimateTokenCountMixed_def estimateTokenCount_def)
next
  case (Cons c cs)
  with assms have "c \<noteq> backtick" by auto
  then have "\<not> startsWith s fence" "\<not> startsWith s [backtick]"
    using Cons by (auto simp: startsWith_def fence_def backtick_def)
  with Cons assms show ?thesis
    by (simp add: estimateTokenCountMixed_def splitCode_no_backtick del: splitCode.simps)
qed

text \<open>
  C4, as stated, fails: on the one-character string of a space, three of the four
  estimators return 0.
\<close>

theorem estimators_zero_on_blank:
  "'' '' \<noteq> [] \<and> estimateTokenCount '' '' = 0 \<and> estimateTokenCountForCode '' '' = 0 \<and>
   estimateTokenCountMixed '' '' = 0"
proof -
  have a: "estimateTokenCount '' '' = 0"
    by (simp add: estimateTokenCount_def nonEmptyPieces_def isWhiteSpace_def isSpecialChar_def
          isDigit_def Let_def)
  have b: "estimateTokenCountForCode '' '' = 0"
    by (simp add: estimateTokenCountForCode_def nonEmptyPieces_def isCodeDelimiter_def
          isWhiteSpace_def isOperator_def isQuote_def Let_def)
  have c: "estimateTokenCountMixed '' '' = estimateTokenCount '' ''"
    by (rule estimateTokenCountMixed_plain) (simp add: backtick_def)
  from a b c show ?thesis by simp
qed

text \<open>
  C4, amended. Each estimator is a function of its argument alone, returns a non-negative
  integer and returns 0 on the empty string. \<open>estimateTokenCountSimple\<close> returns at least 1
  on every non-empty string; \<open>estimateTokenCount\<close> returns at least 1 exactly on the strings
  that hold a character other than white space; \<open>estimateTokenCountForCode\<close> returns at
  least 1 exactly on the strings that hold a character other than white space and the
  delimiters \<open>( ) { } [ ] ; , .\<close>; \<open>estimateTokenCountMixed\<close> agrees with
  \<open>estimateTokenCount\<close> on every string without a backtick, so it returns at least 1 on
  those that hold a character other than white space.
\<close>

theorem estimators_bounds:
  "estimateTokenCount [] = 0 \<and> estimateTokenCountSimple [] = 0 \<and>
   estimateTokenCountForCode [] = 0 \<and> estimateTokenCountMixed [] = 0
   \<and> 0 \<le> estimateTokenCount s \<and> 0 \<le> estimateTokenCountSimple s
   \<and> 0 \<le> estimateTokenCountForCode s \<and> 0 \<le> estimateTokenCountMixed s
   \<and> (s \<noteq> [] \<longrightarrow> 1 \<le> estimateTokenCountSimple s)
   \<and> (1 \<le> estimateTokenCount s) = (\<exists>c \<in> set s. \<not> isWhiteSpace c)
   \<and> (1 \<le> estimateTokenCountForCode s) = (\<exists>c \<in> set s. \<not> isCodeDelimiter c)
   \<and> (backtick \<notin> set s \<longrightarrow> estimateTokenCountMixed s = estimateTokenCount s)
   \<and> (backtick \<notin> set s \<and> (\<exists>c \<in> set s. \<not> isWhiteSpace c) \<longrightarrow> 1 \<le> estimateTokenCountMixed s)"
proof -
  have z: "estimateTokenCount [] = 0 \<and> estimateTokenCountSimple [] = 0 \<and>
           estimateTokenCountForCode [] = 0 \<and> estimateTokenCountMixed [] = 0"
    by (simp add: estimateTokenCount_def estimateTokenCountSimple_def
          estimateTokenCountForCode_def estimateTokenCountMixed_def)
  have m: "1 \<le> estimateTokenCountMixed s"
    if "backtick \<notin> set s" and "\<exists>c \<in> set s. \<not> isWhiteSpace c"
    using that by (simp add: estimateTokenCountMixed_plain estimateTokenCount_pos_iff)
  from z m show ?thesis
    using estimateTokenCount_nonneg [of s] estimateTokenCountSimple_nonneg [of s]
      estimateTokenCountForCode_nonneg [of s] estimateTokenCountMixed_nonneg [of s]
      estimateTokenCountSimple_pos [of s] estimateTokenCount_pos_iff [of s]
      estimateTokenCountForCode_pos_iff [of s] estimateTokenCountMixed_plain [of s]
    by blast
qed

theorem estimators_bounds_witness:
  "''Hi'' \<noteq> [] \<and> 1 \<le> estimateTokenCountSimple ''Hi''
   \<and> backtick \<notin> set ''Hi'' \<and> (\<exists>c \<in> set ''Hi''. \<not> isWhiteSpace c)
   \<and> estimateTokenCountMixed ''Hi'' = estimateTokenCount ''Hi''
   \<and> 1 \<le> estimateTokenCountMixed ''Hi'' \<and> 1 \<le> estimateTokenCount ''Hi''"
proof -
  have a: "''Hi'' \<noteq> []" by simp
  have b: "backtick \<notin> set ''Hi''" by (simp add: backtick_def)
  have c: "\<exists>c \<in> set ''Hi''. \<not> isWhiteSpace c" by (simp add: isWhiteSpace_def)
  from estimators_bounds [of "''Hi''"] a b c show ?thesis by blast
qed

section \<open>Embedding requests\<close>

lemma appendPartTexts_eq:
  "appendPartTexts acc ps =
     acc @ concat (map (\<lambda>t. t @ '' '') (map (\<lambda>p. the (part_text p)) (filter (\<lambda>p. truthy (part_text p)) ps)))"
  by (induction ps arbitrary: acc) auto

lemma appendContentTexts_eq:
  "appendContentTexts acc cs = acc @ concat (map (\<lambda>t. t @ '' '') (textsOf cs))"
  by (induction cs arbitrary: acc) (auto simp: textsOf_def appendPartTexts_eq split: option.splits)

text \<open>
  C8. The text of an embed request is the non-empty texts of its parts, each followed by a
  space. When the trimmed text is empty, \<open>embedContent\<close> issues no request and fails with
  the error 'No text content found for embedding'. Otherwise it issues exactly one request,
  a POST of the model and the trimmed text to the embeddings endpoint, and its result is
  what the outcome of that request gives.
\<close>

theorem embedContent_validates_before_network:
  "appendContentTexts [] (e_contents request) =
     concat (map (\<lambda>t. t @ '' '') (textsOf (e_contents request)))
   \<and> (trim (appendContentTexts [] (e_contents request)) = [] \<longrightarrow>
        embedContent baseUrl fetch json request =
          ([], Inl (newError ''No text content found for embedding'')))
   \<and> (trim (appendContentTexts [] (e_contents request)) \<noteq> [] \<longrightarrow>
        embedContent baseUrl fetch json request =
          ([\<lparr>req_url = baseUrl @ ''/api/embeddings'', req_method = ''POST'',
             req_body = \<lparr>er_model = e_model request,
                          er_prompt = trim (appendContentTexts [] (e_contents request))\<rparr>\<rparr>],
           embedOutcome baseUrl json
             (fetch \<lparr>req_url = baseUrl @ ''/api/embeddings'', req_method = ''POST'',
                     req_body = \<lparr>er_model = e_model request,
                                  er_prompt = trim (appendContentTexts [] (e_contents request))\<rparr>\<rparr>)))"
  by (simp add: embedContent_def Let_def appendContentTexts_eq)

theorem embedContent_validates_before_network_witness:
  "trim (appendContentTexts []
      [\<lparr>role = Some ''user'', parts = Some [textPart ''  '', textPart []]\<rparr>]) = []
   \<and> embedContent ''http://localhost:11434'' (\<lambda>r. Rejected (newError ''unreachable''))
        (\<lambda>s. Inr [])
        \<lparr>e_model = ''nomic-embed-text'',
         e_contents = [\<lparr>role = Some ''user'', parts = Some [textPart ''  '', textPart []]\<rparr>]\<rparr>
       = ([], Inl (newError ''No text content found for embedding''))
   \<and> trim (appendContentTexts []
      [\<lparr>role = Some ''user'', parts = Some [textPart ''Hi'']\<rparr>]) \<noteq> []
   \<and> embedContent ''http://localhost:11434''
        (\<lambda>r. Resolved \<lparr>resp_ok = True, resp_status = 200, resp_text = ''{}'', resp_body = None\<rparr>)
        (\<lambda>s. Inr [1 / 2])
        \<lparr>e_model = ''nomic-embed-text'',
         e_contents = [\<lparr>role = Some ''user'', parts = Some [textPart ''Hi'']\<rparr>]\<rparr>
       = ([\<lparr>req_url = ''http://localhost:11434/api/embeddings'', req_method = ''POST'',
            req_body = \<lparr>er_model = ''nomic-embed-text'', er_prompt = ''Hi''\<rparr>\<rparr>],
          Inr [[1 / 2]])"
proof -
  let ?blank = "\<lparr>e_model = ''nomic-embed-text'',
         e_contents = [\<lparr>role = Some ''user'', parts = Some [textPart ''  '', textPart []]\<rparr>]\<rparr>"
  let ?hi = "\<lparr>e_model = ''nomic-embed-text'',
         e_contents = [\<lparr>role = Some ''user'', parts = Some [textPart ''Hi'']\<rparr>]\<rparr>"
  have A0: "trim (appendContentTexts []
              [\<lparr>role = Some ''user'', parts = Some [textPart ''  '', textPart []]\<rparr>]) = []"
    by (simp add: textPart_def truthy_def trim_def isWhiteSpace_def)
  have B0: "trim (appendContentTexts []
              [\<lparr>role = Some ''user'', parts = Some [textPart ''Hi'']\<rparr>]) = ''Hi''"
    by (simp add: textPart_def truthy_def trim_def isWhiteSpace_def)
  have A: "trim (appendContentTexts [] (e_contents ?blank)) = []"
    by (simp add: A0 del: appendContentTexts.simps)
  have B: "trim (appendContentTexts [] (e_contents ?hi)) = ''Hi''"
    by (simp add: B0 del: appendContentTexts.simps)
  from embedContent_validates_before_network
         [of ?blank "''http://localhost:11434''" "\<lambda>r. Rejected (newError ''unreachable'')" "\<lambda>s. Inr []"]
       A
  have R1: "embedContent ''http://localhost:11434'' (\<lambda>r. Rejected (newError ''unreachable''))
              (\<lambda>s. Inr []) ?blank = ([], Inl (newError ''No text content found for embedding''))"
    by blast
  from B have B': "trim (appendContentTexts [] (e_contents ?hi)) \<noteq> []" by simp
  from embedContent_validates_before_network
         [of ?hi "''http://localhost:11434''"
             "\<lambda>r. Resolved \<lparr>resp_ok = True, resp_status = 200, resp_text = ''{}'', resp_body = None\<rparr>"
             "\<lambda>s. Inr [1 / 2]"]
       B'
  have "embedContent ''http://localhost:11434''
          (\<lambda>r. Resolved \<lparr>resp_ok = True, resp_status = 200, resp_text = ''{}'', resp_body = None\<rparr>)
          (\<lambda>s. Inr [1 / 2]) ?hi =
          ([\<lparr>req_url = ''http://localhost:11434'' @ ''/api/embeddings'', req_method = ''POST'',
             req_body = \<lparr>er_model = e_model ?hi,
                          er_prompt = trim (appendContentTexts [] (e_contents ?hi))\<rparr>\<rparr>],
           embedOutcome ''http://localhost:11434'' (\<lambda>s. Inr [1 / 2])
             (Resolved \<lparr>resp_ok = True, resp_status = 200, resp_text = ''{}'', resp_body = None\<rparr>))"
    by blast
  then have R2: "embedContent ''http://localhost:11434''
          (\<lambda>r. Resolved \<lparr>resp_ok = True, resp_status = 200, resp_text = ''{}'', resp_body = None\<rparr>)
          (\<lambda>s. Inr [1 / 2]) ?hi =
          ([\<lparr>req_url = ''http://localhost:11434/api/embeddings'', req_method = ''POST'',
            req_body = \<lparr>er_model = ''nomic-embed-text'', er_prompt = ''Hi''\<rparr>\<rparr>],
          Inr [[1 / 2]])"
    by (simp add: B0 embedOutcome_def del: appendContentTexts.simps)
  from A0 B0 R1 R2 show ?thesis by (simp del: appendContentTexts.simps)
qed

section \<open>Connection refused\<close>

lemma strIncludes_prefix: "startsWith s p \<Longrightarrow> strIncludes s p"
  by (cases s) (auto simp: startsWith_def)

lemma strIncludes_append: "strIncludes (a @ b @ c) b"
proof (induction a)
  case Nil
  have "startsWith (b @ c) b" by (simp add: startsWith_def)
  then show ?case by (simp add: strIncludes_prefix)
next
  case (Cons x a)
  then show ?case by simp
qed

lemma connectionError_mentions_endpoint:
  "strIncludes (err_message (connectionError baseUrl)) baseUrl \<and>
   strIncludes (err_message (connectionError baseUrl)) ''ollama serve''"
proof -
  have "strIncludes (''Cannot connect to Ollama at '' @ baseUrl @
          ''. Please ensure Ollama is running (try: ollama serve)'') baseUrl"
    by (rule strIncludes_append)
  moreover have "strIncludes ((''Cannot connect to Ollama at '' @ baseUrl @
          ''. Please ensure Ollama is running (try: '') @ ''ollama serve'' @ '')'') ''ollama serve''"
    by (rule strIncludes_append)
  ultimately show ?thesis by (simp add: connectionError_def newError_def)
qed

lemma refused_generate:
  assumes "\<forall>r. fetch r = Rejected e"
    and "err_name e \<noteq> ''AbortError''" and "strIncludes (err_message e) ''ECONNREFUSED''"
  shows "snd (generateContent baseUrl fetch json stringify request) = Inl (connectionError baseUrl)"
  using assms by (simp add: generateContent_def Let_def del: strIncludes.simps)

lemma refused_embed:
  assumes "\<forall>r. fetch r = Rejected e"
    and "strIncludes (err_message e) ''ECONNREFUSED''"
    and "trim (appendContentTexts [] (e_contents request)) \<noteq> []"
  shows "snd (embedContent baseUrl fetch json request) = Inl (connectionError baseUrl)"
  using assms by (simp add: embedContent_def embedOutcome_def Let_def del: strIncludes.simps)

text \<open>
  C6. When \<open>fetch\<close> rejects with a connection-refused error, \<open>generateContentStream\<close> gives
  the caller that error as it is; its message does not hold the base endpoint.
  \<open>generateContent\<close>, on the same rejection, gives the connection error that names the
  endpoint.
\<close>

theorem generateContentStream_rethrows_refusal:
  "snd (generateContentStream ''http://localhost:11434''
          (\<lambda>r. Rejected \<lparr>err_name = ''TypeError'',
                           err_message = ''connect ECONNREFUSED 127.0.0.1:11434''\<rparr>)
          parse dec stringify request)
     = Inl \<lparr>err_name = ''TypeError'', err_message = ''connect ECONNREFUSED 127.0.0.1:11434''\<rparr>
   \<and> \<not> strIncludes ''connect ECONNREFUSED 127.0.0.1:11434'' ''http://localhost:11434''
   \<and> snd (generateContent ''http://localhost:11434''
          (\<lambda>r. Rejected \<lparr>err_name = ''TypeError'',
                           err_message = ''connect ECONNREFUSED 127.0.0.1:11434''\<rparr>)
          json stringify request)
     = Inl (connectionError ''http://localhost:11434'')"
proof -
  have inc: "strIncludes ''connect ECONNREFUSED 127.0.0.1:11434'' ''ECONNREFUSED''"
    by (simp add: startsWith_def)
  have ninc: "\<not> strIncludes ''connect ECONNREFUSED 127.0.0.1:11434'' ''http://localhost:11434''"
    by (simp add: startsWith_def)
  have a: "snd (generateContentStream ''http://localhost:11434''
          (\<lambda>r. Rejected \<lparr>err_name = ''TypeError'',
                           err_message = ''connect ECONNREFUSED 127.0.0.1:11434''\<rparr>)
          parse dec stringify request)
     = Inl \<lparr>err_name = ''TypeError'', err_message = ''connect ECONNREFUSED 127.0.0.1:11434''\<rparr>"
    by (simp add: generateContentStream_def Let_def)
  have b: "snd (generateContent ''http://localhost:11434''
          (\<lambda>r. Rejected \<lparr>err_name = ''TypeError'',
                           err_message = ''connect ECONNREFUSED 127.0.0.1:11434''\<rparr>)
          json stringify request)
     = Inl (connectionError ''http://localhost:11434'')"
  proof -
    let ?e = "\<lparr>err_name = ''TypeError'', err_message = ''connect ECONNREFUSED 127.0.0.1:11434''\<rparr>"
    have f: "\<forall>r :: OllamaRequest HttpRequest. (\<lambda>r. Rejected ?e) r = Rejected ?e" by simp
    have n: "err_name ?e \<noteq> ''AbortError''" by simp
    have i: "strIncludes (err_message ?e) ''ECONNREFUSED''" using inc by simp
    from refused_generate [OF f n i] show ?thesis .
  qed
  from a b ninc show ?thesis by blast
qed

end
